theory Spec2Isabelle
  imports Complex_Main "HOL-Library.AList" "HOL-Library.Char_ord" "HOL-Library.List_Lexorder"
begin

section \<open>Data model\<close>

text \<open>
  The price subsystem of \<^verbatim>\<open>app.py\<close>: the tiered Alpha Vantage fetcher
  \<^verbatim>\<open>fetch_price_alpha_vantage\<close>, the price cache \<^verbatim>\<open>get_cached_price\<close> /
  \<^verbatim>\<open>cache_price\<close>, the resolution policy \<^verbatim>\<open>ensure_price\<close> and the
  "Update prices" loop of the Overview page.

  Prices are Python floats. No function modelled here computes with a price: a price is
  parsed from a string, stored, read back and returned. The float type is therefore a type
  parameter \<open>'f\<close>, and \<^verbatim>\<open>float(s)\<close> on a string is a parameter of the environment.
\<close>

type_synonym date = "nat \<times> nat \<times> nat"

text \<open>
  A decoded JSON body of the provider. Alpha Vantage encodes every leaf as a JSON string,
  so an object is either flat (keys to strings) or a series (keys to flat objects).
  Objects are association lists read with \<open>map_of\<close>, as \<^verbatim>\<open>dict.get\<close> reads a dict.
\<close>

type_synonym fields = "(string \<times> string) list"

datatype jval = JNull | JStr string | JFields fields | JSeries "(string \<times> fields) list"

type_synonym body = "(string \<times> jval) list"

datatype request = Request (req_function: string) (req_apikey: string) (req_symbol: string)

text \<open>
  \<open>RequestFailed\<close> stands for every exception of \<^verbatim>\<open>requests.get\<close>,
  \<^verbatim>\<open>r.raise_for_status()\<close> and \<^verbatim>\<open>r.json()\<close>; \<open>Body\<close> is the decoded body.
\<close>

datatype response = RequestFailed string | Body body

datatype event = HttpGet request | Sleep nat

text \<open>
  The exceptions. The first five are the \<^verbatim>\<open>ValueError\<close>s that \<^verbatim>\<open>app.py\<close> raises itself:
  \<open>KeyMissing\<close> is \<^verbatim>\<open>ValueError("Alpha Vantage key missing")\<close>,
  \<open>ApiInfo v\<close> is \<^verbatim>\<open>ValueError(f"API info: {data['Information']}")\<close>,
  \<open>RateLimitHit v\<close> is \<^verbatim>\<open>ValueError(f"Rate limit hit: {data['Note']}")\<close>,
  \<open>ApiError v\<close> is \<^verbatim>\<open>ValueError(f"API error: {data['Error Message']}")\<close>,
  \<open>NoTimeSeries\<close> is \<^verbatim>\<open>ValueError("No time series returned by Alpha Vantage")\<close>.
  The others are raised by the library and the builtins the code calls.
\<close>

datatype error =
    KeyMissing
  | ApiInfo jval
  | RateLimitHit jval
  | ApiError jval
  | NoTimeSeries
  | RequestException string
  | AttributeError
  | TypeError
  | KeyError string
  | FloatValueError string

text \<open>A row of the table \<^verbatim>\<open>prices_daily\<close>: columns symbol, price, asof.\<close>

datatype 'f row = Row (row_symbol: string) (row_price: 'f) (row_asof: string)

text \<open>
  Everything outside the process that the code reads or changes: the table, the log of
  requests sent and pauses taken (oldest first), and a counter of the invocations of
  \<^verbatim>\<open>fetch_price_alpha_vantage\<close> (a ghost field: the code has no such counter).
\<close>

record 'f world =
  prices_daily :: "'f row list"
  events :: "event list"
  fetch_calls :: nat

text \<open>
  What the code takes from its surroundings: the module constant \<^verbatim>\<open>ALPHAVANTAGE_KEY\<close>
  (already stripped by \<^verbatim>\<open>_get_secret\<close>), \<^verbatim>\<open>date.today()\<close>,
  \<^verbatim>\<open>dtparser.parse(s).date()\<close> and \<^verbatim>\<open>float(s)\<close> (\<open>None\<close> when they raise), and
  the provider, whose answer may depend on everything sent and slept so far.
\<close>

record 'f env =
  ALPHAVANTAGE_KEY :: string
  today :: date
  dt_parse :: "string \<Rightarrow> date option"
  py_float :: "string \<Rightarrow> 'f option"
  provider :: "event list \<Rightarrow> request \<Rightarrow> response"

section \<open>DB helpers\<close>

text \<open>
  \<^verbatim>\<open>select("*").eq("symbol", symbol).order("asof", desc=True).limit(1)\<close>: the row of the
  symbol with the greatest \<^verbatim>\<open>asof\<close>. Among rows with the same \<^verbatim>\<open>asof\<close> the store
  decides; the model keeps the one inserted first.
\<close>

definition get_cached_price :: "'f world \<Rightarrow> string \<Rightarrow> 'f row option" where
  "get_cached_price w symbol =
     (case filter (\<lambda>r. row_symbol r = symbol) (prices_daily w) of
        [] \<Rightarrow> None
      | r # rs \<Rightarrow> Some (fold (\<lambda>x best. if row_asof best < row_asof x then x else best) rs r))"

definition cache_price :: "'f world \<Rightarrow> string \<Rightarrow> 'f \<Rightarrow> string \<Rightarrow> 'f world" where
  "cache_price w symbol p a = w\<lparr>prices_daily := prices_daily w @ [Row symbol p a]\<rparr>"

section \<open>Alpha Vantage fetcher\<close>

text \<open>Python truthiness of a decoded value.\<close>

fun truthy :: "jval \<Rightarrow> bool" where
  "truthy JNull = False"
| "truthy (JStr s) = (s \<noteq> [])"
| "truthy (JFields f) = (f \<noteq> [])"
| "truthy (JSeries s) = (s \<noteq> [])"

text \<open>\<^verbatim>\<open>a or b\<close> on the results of \<^verbatim>\<open>dict.get\<close> of a flat object.\<close>

definition py_or :: "string option \<Rightarrow> string option \<Rightarrow> string option" where
  "py_or a b = (case a of None \<Rightarrow> b | Some s \<Rightarrow> if s \<noteq> [] then Some s else b)"

text \<open>
  \<^verbatim>\<open>last_date = max(series.keys())\<close> with \<^verbatim>\<open>series[last_date]\<close>; \<open>None\<close> on the
  empty object, which the code excludes by testing the series first.
\<close>

definition latest_entry :: "(string \<times> 'a) list \<Rightarrow> (string \<times> 'a) option" where
  "latest_entry series =
     (case map fst series of
        [] \<Rightarrow> None
      | k # ks \<Rightarrow> (let last_date = fold max ks k
                   in map_option (Pair last_date) (map_of series last_date)))"

text \<open>
  The inner function \<^verbatim>\<open>_call(func, {"symbol": symbol})\<close>: one request, then the three
  diagnostic keys in the order of the source.
\<close>

definition call :: "'f env \<Rightarrow> 'f world \<Rightarrow> string \<Rightarrow> string \<Rightarrow> (error + body) \<times> 'f world" where
  "call env w func symbol =
     (let req = Request func (ALPHAVANTAGE_KEY env) symbol;
          w' = w\<lparr>events := events w @ [HttpGet req]\<rparr>
      in case provider env (events w) req of
           RequestFailed m \<Rightarrow> (Inl (RequestException m), w')
         | Body data \<Rightarrow>
             (case map_of data ''Information'' of
                Some v \<Rightarrow> (Inl (ApiInfo v), w')
              | None \<Rightarrow>
                  (case map_of data ''Note'' of
                     Some v \<Rightarrow> (Inl (RateLimitHit v), w')
                   | None \<Rightarrow>
                       (case map_of data ''Error Message'' of
                          Some v \<Rightarrow> (Inl (ApiError v), w')
                        | None \<Rightarrow> (Inr data, w')))))"

text \<open>
  The body of the first \<^verbatim>\<open>try\<close>: \<open>Inl e\<close> when it raises \<open>e\<close>, \<open>Inr (Some r)\<close> when
  it returns \<open>r\<close>, \<open>Inr None\<close> when it falls out of the \<^verbatim>\<open>if px:\<close>.
\<close>

definition tier1 ::
  "'f env \<Rightarrow> 'f world \<Rightarrow> string \<Rightarrow> (error + ('f \<times> string) option) \<times> 'f world" where
  "tier1 env w symbol =
     (case call env w ''GLOBAL_QUOTE'' symbol of
        (Inl e, w') \<Rightarrow> (Inl e, w')
      | (Inr gq, w') \<Rightarrow>
          (let v = (case map_of gq ''Global Quote'' of None \<Rightarrow> JFields [] | Some v \<Rightarrow> v);
               g = (if truthy v then v else JFields [])
           in case g of
                JFields f \<Rightarrow>
                  (let px = map_of f ''05. price'';
                       latest_day =
                         (case py_or (py_or (map_of f ''07. latest trading day'')
                                            (map_of f ''10. latest trading day'')) (Some '''') of
                            Some s \<Rightarrow> s | None \<Rightarrow> '''')
                   in case px of
                        None \<Rightarrow> (Inr None, w')
                      | Some s \<Rightarrow>
                          if s \<noteq> [] then
                            (case py_float env s of
                               Some p \<Rightarrow> (Inr (Some (p, latest_day)), w')
                             | None \<Rightarrow> (Inl (FloatValueError s), w'))
                          else (Inr None, w'))
              | JSeries s \<Rightarrow>
                  (case map_of s ''05. price'' of
                     None \<Rightarrow> (Inr None, w')
                   | Some px \<Rightarrow> if px \<noteq> [] then (Inl TypeError, w') else (Inr None, w'))
              | JStr s \<Rightarrow> (Inl AttributeError, w')
              | JNull \<Rightarrow> (Inl AttributeError, w')))"

text \<open>The body of the second \<^verbatim>\<open>try\<close>, with the same three outcomes.\<close>

definition tier2 ::
  "'f env \<Rightarrow> 'f world \<Rightarrow> string \<Rightarrow> (error + ('f \<times> string) option) \<times> 'f world" where
  "tier2 env w symbol =
     (case call env w ''TIME_SERIES_DAILY'' symbol of
        (Inl e, w') \<Rightarrow> (Inl e, w')
      | (Inr d, w') \<Rightarrow>
          (case map_of d ''Time Series (Daily)'' of
             None \<Rightarrow> (Inr None, w')
           | Some JNull \<Rightarrow> (Inr None, w')
           | Some (JStr s) \<Rightarrow> (if s \<noteq> [] then Inl AttributeError else Inr None, w')
           | Some (JFields f) \<Rightarrow>
               (case latest_entry f of None \<Rightarrow> (Inr None, w') | Some e \<Rightarrow> (Inl TypeError, w'))
           | Some (JSeries s) \<Rightarrow>
               (case latest_entry s of
                  None \<Rightarrow> (Inr None, w')
                | Some (last_date, r) \<Rightarrow>
                    (case map_of r ''4. close'' of
                       None \<Rightarrow> (Inl (KeyError ''4. close''), w')
                     | Some c \<Rightarrow>
                         (case py_float env c of
                            Some p \<Rightarrow> (Inr (Some (p, last_date)), w')
                          | None \<Rightarrow> (Inl (FloatValueError c), w'))))))"

text \<open>
  The last tier runs outside any \<^verbatim>\<open>try\<close>: what it raises leaves the function.
  \<^verbatim>\<open>float(None)\<close> is a \<^verbatim>\<open>TypeError\<close>.
\<close>

definition tier3 :: "'f env \<Rightarrow> 'f world \<Rightarrow> string \<Rightarrow> (error + 'f \<times> string) \<times> 'f world" where
  "tier3 env w symbol =
     (case call env w ''TIME_SERIES_DAILY_ADJUSTED'' symbol of
        (Inl e, w') \<Rightarrow> (Inl e, w')
      | (Inr d2, w') \<Rightarrow>
          (case map_of d2 ''Time Series (Daily)'' of
             None \<Rightarrow> (Inl NoTimeSeries, w')
           | Some JNull \<Rightarrow> (Inl NoTimeSeries, w')
           | Some (JStr s) \<Rightarrow> (if s \<noteq> [] then Inl AttributeError else Inl NoTimeSeries, w')
           | Some (JFields f) \<Rightarrow>
               (case latest_entry f of
                  None \<Rightarrow> (Inl NoTimeSeries, w')
                | Some e \<Rightarrow> (Inl AttributeError, w'))
           | Some (JSeries s) \<Rightarrow>
               (case latest_entry s of
                  None \<Rightarrow> (Inl NoTimeSeries, w')
                | Some (last_date, last_row) \<Rightarrow>
                    (case py_or (map_of last_row ''5. adjusted close'')
                                (map_of last_row ''4. close'') of
                       None \<Rightarrow> (Inl TypeError, w')
                     | Some c \<Rightarrow>
                         (case py_float env c of
                            Some p \<Rightarrow> (Inr (p, last_date), w')
                          | None \<Rightarrow> (Inl (FloatValueError c), w'))))))"

text \<open>
  \<^verbatim>\<open>fetch_price_alpha_vantage\<close>. Each \<^verbatim>\<open>except Exception: pass\<close> is the branch that
  goes on to the next tier on \<open>Inl e\<close>, as it does on \<open>Inr None\<close>.
\<close>

definition fetch_price_alpha_vantage ::
  "'f env \<Rightarrow> 'f world \<Rightarrow> string \<Rightarrow> (error + 'f \<times> string) \<times> 'f world" where
  "fetch_price_alpha_vantage env w symbol =
     (let w0 = w\<lparr>fetch_calls := Suc (fetch_calls w)\<rparr>
      in if ALPHAVANTAGE_KEY env = [] then (Inl KeyMissing, w0)
         else
           (case tier1 env w0 symbol of
              (Inr (Some r), w1) \<Rightarrow> (Inr r, w1)
            | (Inr None, w1) \<Rightarrow>
                (case tier2 env w1 symbol of
                   (Inr (Some r), w2) \<Rightarrow> (Inr r, w2)
                 | (Inr None, w2) \<Rightarrow> tier3 env w2 symbol
                 | (Inl e, w2) \<Rightarrow> tier3 env w2 symbol)
            | (Inl e, w1) \<Rightarrow>
                (case tier2 env w1 symbol of
                   (Inr (Some r), w2) \<Rightarrow> (Inr r, w2)
                 | (Inr None, w2) \<Rightarrow> tier3 env w2 symbol
                 | (Inl e, w2) \<Rightarrow> tier3 env w2 symbol)))"

section \<open>Resolution policy\<close>

text \<open>
  \<^verbatim>\<open>ensure_price\<close> returns \<^verbatim>\<open>(price, asof, fetched_now)\<close>. A date that does not
  parse gives \<^verbatim>\<open>asof_dt = None\<close>, which is not today.
\<close>

definition ensure_price ::
  "'f env \<Rightarrow> 'f world \<Rightarrow> string \<Rightarrow> bool \<Rightarrow> (error + 'f \<times> string \<times> bool) \<times> 'f world" where
  "ensure_price env w symbol force_refresh =
     (let hit =
            (if \<not> force_refresh then
               (case get_cached_price w symbol of
                  None \<Rightarrow> None
                | Some cached \<Rightarrow>
                    if dt_parse env (row_asof cached) = Some (today env) then Some cached
                    else None)
             else None)
      in case hit of
           Some cached \<Rightarrow> (Inr (row_price cached, row_asof cached, False), w)
         | None \<Rightarrow>
             (case fetch_price_alpha_vantage env w symbol of
                (Inl e, w') \<Rightarrow> (Inl e, w')
              | (Inr (p, a), w') \<Rightarrow> (Inr (p, a, True), cache_price w' symbol p a)))"

section \<open>Overview page: the update loop\<close>

text \<open>
  The variables of the page: the dicts \<^verbatim>\<open>prices\<close> and \<^verbatim>\<open>last_asof\<close> (association
  lists in insertion order, written with \<open>AList.update\<close> as a dict assignment writes),
  the counter \<^verbatim>\<open>calls_made\<close>, and what \<^verbatim>\<open>st.error\<close> and \<^verbatim>\<open>st.warning\<close> have
  shown. \<^verbatim>\<open>st.error(f"Failed to fetch {sym}: {e}")\<close> is kept as the pair of the symbol
  and the exception.
\<close>

record 'f page =
  prices :: "(string \<times> 'f) list"
  last_asof :: "(string \<times> string) list"
  calls_made :: nat
  errors :: "(string \<times> error) list"
  warnings :: "string list"

text \<open>
  One pass of the body of \<^verbatim>\<open>for sym in df["symbol"].tolist()\<close>. The price that
  \<^verbatim>\<open>ensure_price\<close> returns is never \<^verbatim>\<open>None\<close>, so \<^verbatim>\<open>if price is not None\<close> holds.
\<close>

definition update_step ::
  "'f env \<Rightarrow> bool \<Rightarrow> string \<Rightarrow> 'f world \<times> 'f page \<Rightarrow> 'f world \<times> 'f page" where
  "update_step env force symbol s =
     (case s of (w, pg) \<Rightarrow>
        (case ensure_price env w symbol force of
           (Inr (p, a, fetched_now), w') \<Rightarrow>
             (let pg' = pg\<lparr>prices := AList.update symbol p (prices pg),
                            last_asof := AList.update symbol a (last_asof pg)\<rparr>
              in if fetched_now
                 then (w'\<lparr>events := events w' @ [Sleep 12]\<rparr>,
                       pg'\<lparr>calls_made := Suc (calls_made pg')\<rparr>)
                 else (w', pg'))
         | (Inl e, w') \<Rightarrow>
             (let pg' = pg\<lparr>errors := errors pg @ [(symbol, e)]\<rparr>
              in case get_cached_price w' symbol of
                   None \<Rightarrow> (w', pg')
                 | Some cached \<Rightarrow>
                     (w', pg'\<lparr>prices := AList.update symbol (row_price cached) (prices pg'),
                              last_asof :=
                                AList.update symbol (row_asof cached) (last_asof pg')\<rparr>))))"

fun update_loop ::
  "'f env \<Rightarrow> bool \<Rightarrow> string list \<Rightarrow> 'f world \<times> 'f page \<Rightarrow> 'f world \<times> 'f page" where
  "update_loop env force [] s = s"
| "update_loop env force (symbol # symbols) s =
     update_loop env force symbols (update_step env force symbol s)"

text \<open>
  What \<^verbatim>\<open>ensure_price\<close> answers in each pass of the loop, in order: an observation of
  the run, used to state the properties of the loop.
\<close>

fun resolutions ::
  "'f env \<Rightarrow> bool \<Rightarrow> string list \<Rightarrow> 'f world \<times> 'f page \<Rightarrow> (error + 'f \<times> string \<times> bool) list"
  where
  "resolutions env force [] s = []"
| "resolutions env force (symbol # symbols) s =
     fst (ensure_price env (fst s) symbol force)
       # resolutions env force symbols (update_step env force symbol s)"

text \<open>The symbols whose resolution raised, each with its exception, in the order of the run.\<close>

fun failures :: "string list \<Rightarrow> (error + 'a) list \<Rightarrow> (string \<times> error) list" where
  "failures (symbol # symbols) (Inl e # rs) = (symbol, e) # failures symbols rs"
| "failures (symbol # symbols) (Inr v # rs) = failures symbols rs"
| "failures symbols rs = []"

definition fetched_now :: "(error + 'f \<times> string \<times> bool) \<Rightarrow> bool" where
  "fetched_now r = (case r of Inr (p, a, b) \<Rightarrow> b | Inl e \<Rightarrow> False)"

definition served_from_cache :: "(error + 'f \<times> string \<times> bool) \<Rightarrow> bool" where
  "served_from_cache r = (case r of Inr (p, a, b) \<Rightarrow> \<not> b | Inl e \<Rightarrow> False)"

definition is_sleep :: "event \<Rightarrow> bool" where
  "is_sleep e = (case e of Sleep n \<Rightarrow> True | HttpGet r \<Rightarrow> False)"

definition is_request :: "event \<Rightarrow> bool" where
  "is_request e = (case e of Sleep n \<Rightarrow> False | HttpGet r \<Rightarrow> True)"

text \<open>
  The page variables as the Overview page sets them before the loop (nothing shown yet),
  and the block under \<^verbatim>\<open>if do_update:\<close>, from those variables to the warning after
  the loop.
\<close>

definition fresh_page :: "'f page" where
  "fresh_page = \<lparr>prices = [], last_asof = [], calls_made = 0, errors = [], warnings = []\<rparr>"

definition overview_update ::
  "'f env \<Rightarrow> bool \<Rightarrow> bool \<Rightarrow> string list \<Rightarrow> 'f world \<Rightarrow> 'f world \<times> 'f page" where
  "overview_update env force do_update symbols w =
     (let pg0 = fresh_page
      in if do_update then
           (case update_loop env force symbols (w, pg0) of
              (w', pg) \<Rightarrow>
                if calls_made pg = 0 \<and> prices pg = [] then
                  (if ALPHAVANTAGE_KEY env = [] then
                     (w', pg\<lparr>warnings := warnings pg
                        @ [''No Alpha Vantage key configured; cannot fetch live prices.'']\<rparr>)
                   else
                     (w', pg\<lparr>warnings := warnings pg
                        @ [''No prices fetched (possibly rate limit or premium endpoint). Try again in ~60 seconds.'']\<rparr>))
                else (w', pg))
         else (w, pg0))"

section \<open>Example data\<close>

text \<open>
  A provider with one behaviour per symbol, on 4 November 2026, a Wednesday:
  \<open>AAA\<close> is answered by the snapshot, with the trading day of the day before;
  \<open>BBB\<close> is rate limited on the snapshot and answered by the daily series;
  \<open>CCC\<close> and \<open>DDD\<close> are answered by the adjusted series only, \<open>DDD\<close> without an
  adjusted close; \<open>EEE\<close> gets no series at all; \<open>FFF\<close> gets a snapshot with no trading
  day; every other symbol is rate limited on all three functions.
\<close>

definition demo_provider :: "event list \<Rightarrow> request \<Rightarrow> response" where
  "demo_provider history req =
     (let f = req_function req; s = req_symbol req
      in if s = ''AAA'' \<and> f = ''GLOBAL_QUOTE'' then
           Body [(''Global Quote'',
                  JFields [(''01. symbol'', ''AAA''), (''05. price'', ''7.50''),
                           (''07. latest trading day'', ''2026-11-03'')])]
         else if s = ''BBB'' \<and> f = ''TIME_SERIES_DAILY'' then
           Body [(''Meta Data'', JFields [(''2. Symbol'', ''BBB'')]),
                 (''Time Series (Daily)'',
                  JSeries [(''2026-11-03'', [(''1. open'', ''11.50''), (''4. close'', ''12.00'')]),
                           (''2026-11-04'', [(''1. open'', ''12.00''), (''4. close'', ''12.50'')]),
                           (''2026-11-02'', [(''1. open'', ''11.00''), (''4. close'', ''11.50'')])])]
         else if s = ''CCC'' \<and> f = ''GLOBAL_QUOTE'' then RequestFailed ''503 Server Error''
         else if s = ''CCC'' \<and> f = ''TIME_SERIES_DAILY'' then
           Body [(''Information'', JStr ''premium endpoint'')]
         else if s = ''CCC'' \<and> f = ''TIME_SERIES_DAILY_ADJUSTED'' then
           Body [(''Time Series (Daily)'',
                  JSeries [(''2026-11-02'', [(''4. close'', ''11.00''), (''5. adjusted close'', ''11.50'')]),
                           (''2026-11-03'', [(''4. close'', ''12.00''), (''5. adjusted close'', ''12.50'')])])]
         else if s = ''DDD'' \<and> f = ''GLOBAL_QUOTE'' then Body [(''Global Quote'', JFields [])]
         else if s = ''DDD'' \<and> f = ''TIME_SERIES_DAILY'' then
           Body [(''Error Message'', JStr ''Invalid API call'')]
         else if s = ''DDD'' \<and> f = ''TIME_SERIES_DAILY_ADJUSTED'' then
           Body [(''Time Series (Daily)'',
                  JSeries [(''2026-11-03'', [(''4. close'', ''12.00'')]),
                           (''2026-11-02'', [(''4. close'', ''11.00'')])])]
         else if s = ''EEE'' then Body [(''Meta Data'', JFields [(''2. Symbol'', ''EEE'')])]
         else if s = ''FFF'' \<and> f = ''GLOBAL_QUOTE'' then
           Body [(''Global Quote'', JFields [(''01. symbol'', ''FFF''), (''05. price'', ''7.50'')])]
         else Body [(''Note'', JStr ''5 calls per minute'')])"

definition demo_env :: "real env" where
  "demo_env =
     \<lparr>ALPHAVANTAGE_KEY = ''demo'',
      today = (2026, 11, 4),
      dt_parse = map_of [(''2026-11-02'', (2026, 11, 2)), (''2026-11-03'', (2026, 11, 3)),
                         (''2026-11-04'', (2026, 11, 4)), (''2026-11-05'', (2026, 11, 5))],
      py_float = map_of [(''7.50'', 15 / 2), (''11.00'', 11), (''11.50'', 23 / 2),
                         (''12.00'', 12), (''12.50'', 25 / 2)],
      provider = demo_provider\<rparr>"

definition nokey_env :: "real env" where
  "nokey_env = demo_env\<lparr>ALPHAVANTAGE_KEY := []\<rparr>"

definition empty_world :: "real world" where
  "empty_world = \<lparr>prices_daily = [], events = [], fetch_calls = 0\<rparr>"

text \<open>
  A store where \<open>AAA\<close> has a row of today, \<open>GGG\<close> a row of the day before and \<open>BBB\<close> a
  row whose date does not parse.
\<close>

definition cached_world :: "real world" where
  "cached_world =
     \<lparr>prices_daily = [Row ''AAA'' 7 ''2026-11-03'', Row ''AAA'' (29 / 4) ''2026-11-04'',
                      Row ''GGG'' 3 ''2026-11-03'', Row ''BBB'' 5 ''n/a''],
      events = [], fetch_calls = 0\<rparr>"

text \<open>
  A store where the row of today of \<open>AAA\<close> is not its latest row: a later fetch was
  answered with the trading day of an exchange that is already a day ahead.
\<close>

definition shadowed_world :: "real world" where
  "shadowed_world =
     \<lparr>prices_daily = [Row ''AAA'' (29 / 4) ''2026-11-04'', Row ''AAA'' 8 ''2026-11-05''],
      events = [], fetch_calls = 0\<rparr>"

section \<open>What each function does to the world\<close>

lemma call_world:
  "call env w func symbol = (r, w') \<Longrightarrow>
     w' = w\<lparr>events := events w @ [HttpGet (Request func (ALPHAVANTAGE_KEY env) symbol)]\<rparr>"
  by (auto simp: call_def Let_def split: response.splits option.splits)

lemma tier1_world:
  "tier1 env w symbol = (r, w') \<Longrightarrow>
     w' = w\<lparr>events := events w @ [HttpGet (Request ''GLOBAL_QUOTE'' (ALPHAVANTAGE_KEY env) symbol)]\<rparr>"
  unfolding tier1_def
  by (auto simp: Let_def dest!: call_world split: prod.splits sum.splits jval.splits option.splits if_splits)

lemma tier2_world:
  "tier2 env w symbol = (r, w') \<Longrightarrow>
     w' = w\<lparr>events := events w @ [HttpGet (Request ''TIME_SERIES_DAILY'' (ALPHAVANTAGE_KEY env) symbol)]\<rparr>"
  unfolding tier2_def
  by (auto simp: Let_def dest!: call_world split: prod.splits sum.splits jval.splits option.splits if_splits)

lemma tier3_world:
  "tier3 env w symbol = (r, w') \<Longrightarrow>
     w' = w\<lparr>events := events w @ [HttpGet (Request ''TIME_SERIES_DAILY_ADJUSTED'' (ALPHAVANTAGE_KEY env) symbol)]\<rparr>"
  unfolding tier3_def
  by (auto simp: Let_def dest!: call_world split: prod.splits sum.splits jval.splits option.splits if_splits)

lemma fetch_world:
  "fetch_price_alpha_vantage env w symbol = (r, w') \<Longrightarrow>
     prices_daily w' = prices_daily w \<and> fetch_calls w' = Suc (fetch_calls w)"
  unfolding fetch_price_alpha_vantage_def
  by (auto simp: Let_def dest!: tier1_world tier2_world tier3_world
      split: prod.splits sum.splits option.splits if_splits)

subsection \<open>The latest row of a symbol\<close>

lemma fold_latest_mem:
  "fold (\<lambda>x best. if row_asof best < row_asof x then x else best) rs r \<in> set (r # rs)"
  by (induction rs arbitrary: r) auto

lemma fold_latest_init:
  "row_asof r \<le> row_asof (fold (\<lambda>x best. if row_asof best < row_asof x then x else best) rs r)"
proof (induction rs arbitrary: r)
  case Nil
  show ?case by simp
next
  case (Cons y rs)
  show ?case
  proof (cases "row_asof r < row_asof y")
    case True
    with Cons [of y] show ?thesis by simp
  next
    case False
    with Cons [of r] show ?thesis by simp
  qed
qed

lemma fold_latest_ge:
  "x \<in> set (r # rs) \<Longrightarrow>
     row_asof x \<le> row_asof (fold (\<lambda>x best. if row_asof best < row_asof x then x else best) rs r)"
proof (induction rs arbitrary: r)
  case Nil
  then show ?case by simp
next
  case (Cons y rs)
  let ?b = "if row_asof r < row_asof y then y else r"
  have step: "row_asof r \<le> row_asof ?b" "row_asof y \<le> row_asof ?b" by auto
  have init: "row_asof ?b \<le>
      row_asof (fold (\<lambda>x best. if row_asof best < row_asof x then x else best) rs ?b)"
    by (rule fold_latest_init)
  from Cons.prems consider "x = r" | "x = y" | "x \<in> set rs" by auto
  then show ?case
  proof cases
    case 1
    with step(1) init show ?thesis by simp
  next
    case 2
    with step(2) init show ?thesis by simp
  next
    case 3
    then have "x \<in> set (?b # rs)" by simp
    from Cons.IH [OF this] show ?thesis by simp
  qed
qed

lemma get_cached_price_None:
  "get_cached_price w symbol = None \<longleftrightarrow> (\<forall>r\<in>set (prices_daily w). row_symbol r \<noteq> symbol)"
proof -
  have "get_cached_price w symbol = None \<longleftrightarrow>
        filter (\<lambda>r. row_symbol r = symbol) (prices_daily w) = []"
    by (simp add: get_cached_price_def split: list.splits)
  then show ?thesis by (simp add: filter_empty_conv)
qed

lemma get_cached_price_Some:
  assumes "get_cached_price w symbol = Some c"
  shows "c \<in> set (prices_daily w) \<and> row_symbol c = symbol \<and>
         (\<forall>r\<in>set (prices_daily w). row_symbol r = symbol \<longrightarrow> row_asof r \<le> row_asof c)"
proof -
  from assms obtain r rs where f: "filter (\<lambda>r. row_symbol r = symbol) (prices_daily w) = r # rs"
    and c: "c = fold (\<lambda>x best. if row_asof best < row_asof x then x else best) rs r"
    by (auto simp: get_cached_price_def split: list.splits)
  have "c \<in> set (r # rs)" unfolding c by (rule fold_latest_mem)
  then have m: "c \<in> set (filter (\<lambda>r. row_symbol r = symbol) (prices_daily w))" by (simp only: f)
  have "\<And>x. x \<in> set (filter (\<lambda>r. row_symbol r = symbol) (prices_daily w)) \<Longrightarrow> row_asof x \<le> row_asof c"
    unfolding c f by (rule fold_latest_ge)
  with m show ?thesis by auto
qed

subsection \<open>The fetcher does not read the store\<close>

lemma call_store:
  "call env (w\<lparr>prices_daily := x\<rparr>) func symbol =
     (case call env w func symbol of (r, w') \<Rightarrow> (r, w'\<lparr>prices_daily := x\<rparr>))"
  by (simp add: call_def Let_def split: response.splits option.splits)

lemma tier1_store:
  "tier1 env (w\<lparr>prices_daily := x\<rparr>) symbol =
     (case tier1 env w symbol of (r, w') \<Rightarrow> (r, w'\<lparr>prices_daily := x\<rparr>))"
  unfolding tier1_def call_store
  by (simp add: Let_def split: prod.splits sum.splits jval.splits option.splits)

lemma tier2_store:
  "tier2 env (w\<lparr>prices_daily := x\<rparr>) symbol =
     (case tier2 env w symbol of (r, w') \<Rightarrow> (r, w'\<lparr>prices_daily := x\<rparr>))"
  unfolding tier2_def call_store
  by (simp add: Let_def split: prod.splits sum.splits jval.splits option.splits)

lemma tier3_store:
  "tier3 env (w\<lparr>prices_daily := x\<rparr>) symbol =
     (case tier3 env w symbol of (r, w') \<Rightarrow> (r, w'\<lparr>prices_daily := x\<rparr>))"
  unfolding tier3_def call_store
  by (simp add: Let_def split: prod.splits sum.splits jval.splits option.splits)

lemma fetch_store:
  "fetch_price_alpha_vantage env (w\<lparr>prices_daily := x\<rparr>) symbol =
     (case fetch_price_alpha_vantage env w symbol of (r, w') \<Rightarrow> (r, w'\<lparr>prices_daily := x\<rparr>))"
proof -
  have sw: "\<And>n. w\<lparr>prices_daily := x, fetch_calls := n\<rparr> = w\<lparr>fetch_calls := n, prices_daily := x\<rparr>"
    by simp
  show ?thesis
    unfolding fetch_price_alpha_vantage_def Let_def
    by (simp add: sw tier1_store tier2_store tier3_store
        split: prod.splits sum.splits option.splits)
qed

subsection \<open>How the fetcher moves through its tiers\<close>

lemma call_Body:
  assumes "provider env (events w) (Request func (ALPHAVANTAGE_KEY env) symbol) = Body data"
  shows "call env w func symbol =
    ((case map_of data ''Information'' of
        Some v \<Rightarrow> Inl (ApiInfo v)
      | None \<Rightarrow>
          (case map_of data ''Note'' of
             Some v \<Rightarrow> Inl (RateLimitHit v)
           | None \<Rightarrow>
               (case map_of data ''Error Message'' of
                  Some v \<Rightarrow> Inl (ApiError v)
                | None \<Rightarrow> Inr data))),
     w\<lparr>events := events w @ [HttpGet (Request func (ALPHAVANTAGE_KEY env) symbol)]\<rparr>)"
  using assms by (simp add: call_def Let_def split: option.splits)

lemma tier1_call_Inl:
  "call env w ''GLOBAL_QUOTE'' symbol = (Inl e, w') \<Longrightarrow> tier1 env w symbol = (Inl e, w')"
  by (simp add: tier1_def)

lemma tier2_call_Inl:
  "call env w ''TIME_SERIES_DAILY'' symbol = (Inl e, w') \<Longrightarrow> tier2 env w symbol = (Inl e, w')"
  by (simp add: tier2_def)

lemma tier3_call_Inl:
  "call env w ''TIME_SERIES_DAILY_ADJUSTED'' symbol = (Inl e, w') \<Longrightarrow>
     tier3 env w symbol = (Inl e, w')"
  by (simp add: tier3_def)

lemma fetch_after_tier1:
  assumes "ALPHAVANTAGE_KEY env \<noteq> []"
    and "tier1 env (w\<lparr>fetch_calls := Suc (fetch_calls w)\<rparr>) symbol = (r1, w1)"
    and "\<forall>q. r1 \<noteq> Inr (Some q)"
  shows "fetch_price_alpha_vantage env w symbol =
           (case tier2 env w1 symbol of
              (Inr (Some r), w2) \<Rightarrow> (Inr r, w2)
            | (Inr None, w2) \<Rightarrow> tier3 env w2 symbol
            | (Inl e, w2) \<Rightarrow> tier3 env w2 symbol)"
  using assms by (cases r1) (auto simp: fetch_price_alpha_vantage_def split: option.splits)

lemma fetch_after_tier2:
  assumes "ALPHAVANTAGE_KEY env \<noteq> []"
    and "tier1 env (w\<lparr>fetch_calls := Suc (fetch_calls w)\<rparr>) symbol = (r1, w1)"
    and "\<forall>q. r1 \<noteq> Inr (Some q)"
    and "tier2 env w1 symbol = (r2, w2)"
    and "\<forall>q. r2 \<noteq> Inr (Some q)"
  shows "fetch_price_alpha_vantage env w symbol = tier3 env w2 symbol"
  using fetch_after_tier1 [OF assms(1-3)] assms(4,5)
  by (cases r2) (auto split: option.splits)


lemma latest_entry_Max:
  assumes "series \<noteq> []"
  shows "latest_entry series =
           map_option (Pair (Max (fst ` set series))) (map_of series (Max (fst ` set series)))"
proof -
  from assms obtain k ks where ks: "map fst series = k # ks" by (cases series) auto
  have "fold max ks k = Max (set (k # ks))" by (simp only: Max.set_eq_fold)
  also have "set (k # ks) = fst ` set series" using ks by (metis set_map)
  finally show ?thesis using ks by (simp add: latest_entry_def)
qed

lemma latest_entry_Nil: "latest_entry [] = None"
  by (simp add: latest_entry_def)

lemma Max_key_entry:
  assumes "series \<noteq> []"
  shows "\<exists>v. map_of series (Max (fst ` set series)) = Some v
             \<and> (Max (fst ` set series), v) \<in> set series"
proof -
  have "Max (fst ` set series) \<in> fst ` set series"
    using assms by (intro Max_in) auto
  then obtain v where "map_of series (Max (fst ` set series)) = Some v"
    by (metis domD dom_map_of_conv_image_fst)
  then show ?thesis by (auto dest: map_of_SomeD)
qed

lemma tier3_Body:
  assumes "provider env (events w) (Request ''TIME_SERIES_DAILY_ADJUSTED'' (ALPHAVANTAGE_KEY env) symbol)
             = Body d2"
    and "map_of d2 ''Information'' = None" "map_of d2 ''Note'' = None"
      "map_of d2 ''Error Message'' = None"
  shows "call env w ''TIME_SERIES_DAILY_ADJUSTED'' symbol =
           (Inr d2, w\<lparr>events := events w
              @ [HttpGet (Request ''TIME_SERIES_DAILY_ADJUSTED'' (ALPHAVANTAGE_KEY env) symbol)]\<rparr>)"
  using call_Body [OF assms(1)] assms(2-4) by simp

lemma call_fetch_calls:
  "call env (w\<lparr>fetch_calls := n\<rparr>) func symbol =
     (case call env w func symbol of (r, w') \<Rightarrow> (r, w'\<lparr>fetch_calls := n\<rparr>))"
  by (simp add: call_def Let_def split: response.splits option.splits)

subsection \<open>One pass of the loop, and the whole loop\<close>

lemma fetch_events:
  assumes "fetch_price_alpha_vantage env w symbol = (r, w')"
  shows "\<exists>es. events w' = events w @ es \<and> (\<forall>e\<in>set es. is_request e)
            \<and> (\<forall>q. r = Inr q \<longrightarrow> es \<noteq> [])"
proof (cases "ALPHAVANTAGE_KEY env = []")
  case True
  with assms have "events w' = events w @ []" "\<forall>q. r \<noteq> Inr q"
    by (auto simp: fetch_price_alpha_vantage_def)
  then show ?thesis by (intro exI [of _ "[]"]) simp
next
  case False
  let ?w0 = "w\<lparr>fetch_calls := Suc (fetch_calls w)\<rparr>"
  let ?GQ = "HttpGet (Request ''GLOBAL_QUOTE'' (ALPHAVANTAGE_KEY env) symbol)"
  let ?TSD = "HttpGet (Request ''TIME_SERIES_DAILY'' (ALPHAVANTAGE_KEY env) symbol)"
  let ?ADJ = "HttpGet (Request ''TIME_SERIES_DAILY_ADJUSTED'' (ALPHAVANTAGE_KEY env) symbol)"
  obtain r1 w1 where t1: "tier1 env ?w0 symbol = (r1, w1)" by (cases "tier1 env ?w0 symbol")
  obtain r2 w2 where t2: "tier2 env w1 symbol = (r2, w2)" by (cases "tier2 env w1 symbol")
  obtain r3 w3 where t3: "tier3 env w2 symbol = (r3, w3)" by (cases "tier3 env w2 symbol")
  have e1: "events w1 = events w @ [?GQ]" using tier1_world [OF t1] by simp
  have e2: "events w2 = events w @ [?GQ, ?TSD]" using tier2_world [OF t2] e1 by simp
  have e3: "events w3 = events w @ [?GQ, ?TSD, ?ADJ]" using tier3_world [OF t3] e2 by simp
  from assms False t1 t2 t3 have "w' = w1 \<or> w' = w2 \<or> w' = w3"
    by (auto simp: fetch_price_alpha_vantage_def split: sum.splits option.splits)
  with e1 e2 e3 consider "events w' = events w @ [?GQ]" | "events w' = events w @ [?GQ, ?TSD]"
    | "events w' = events w @ [?GQ, ?TSD, ?ADJ]"
    by auto
  then show ?thesis
  proof cases
    case 1
    then show ?thesis by (intro exI [of _ "[?GQ]"]) (simp add: is_request_def)
  next
    case 2
    then show ?thesis by (intro exI [of _ "[?GQ, ?TSD]"]) (simp add: is_request_def)
  next
    case 3
    then show ?thesis by (intro exI [of _ "[?GQ, ?TSD, ?ADJ]"]) (simp add: is_request_def)
  qed
qed

lemma ensure_price_world:
  assumes "ensure_price env w symbol force = (r, w1)"
  shows "(\<forall>e. r = Inl e \<longrightarrow>
            prices_daily w1 = prices_daily w \<and> fetch_calls w1 = Suc (fetch_calls w))
       \<and> (\<forall>p a. r = Inr (p, a, True) \<longrightarrow>
            prices_daily w1 = prices_daily w @ [Row symbol p a]
              \<and> fetch_calls w1 = Suc (fetch_calls w))
       \<and> (\<forall>p a. r = Inr (p, a, False) \<longrightarrow> w1 = w)"
proof -
  obtain rf wf where f: "fetch_price_alpha_vantage env w symbol = (rf, wf)"
    by (cases "fetch_price_alpha_vantage env w symbol")
  from fetch_world [OF f] assms f show ?thesis
    by (auto simp: ensure_price_def cache_price_def split: option.splits if_splits sum.splits)
qed

lemma ensure_price_events:
  assumes "ensure_price env w symbol force = (r, w1)"
  shows "\<exists>es. events w1 = events w @ es \<and> (\<forall>e\<in>set es. is_request e)
            \<and> (fetched_now r \<longrightarrow> es \<noteq> [])"
proof -
  obtain rf wf where f: "fetch_price_alpha_vantage env w symbol = (rf, wf)"
    by (cases "fetch_price_alpha_vantage env w symbol")
  from fetch_events [OF f] obtain es where es: "events wf = events w @ es"
    "\<forall>e\<in>set es. is_request e" "\<forall>q. rf = Inr q \<longrightarrow> es \<noteq> []"
    by blast
  show ?thesis
  proof (cases "fetched_now r")
    case True
    with assms f have "events w1 = events wf" "\<exists>q. rf = Inr q"
      by (auto simp: ensure_price_def cache_price_def fetched_now_def
          split: option.splits if_splits sum.splits)
    with es show ?thesis by auto
  next
    case False
    with assms f have "events w1 = events wf \<or> events w1 = events w @ []"
      by (auto simp: ensure_price_def cache_price_def fetched_now_def
          split: option.splits if_splits sum.splits)
    with es False show ?thesis by auto
  qed
qed

lemma update_step_world:
  assumes "ensure_price env w symbol force = (r, w1)"
  shows "fst (update_step env force symbol (w, pg)) =
           (if fetched_now r then w1\<lparr>events := events w1 @ [Sleep 12]\<rparr> else w1)"
  using assms
  by (auto simp: update_step_def fetched_now_def Let_def split: sum.splits option.splits)

lemma update_step_calls_made:
  assumes "ensure_price env w symbol force = (r, w1)"
  shows "calls_made (snd (update_step env force symbol (w, pg))) =
           (if fetched_now r then Suc (calls_made pg) else calls_made pg)"
  using assms
  by (auto simp: update_step_def fetched_now_def Let_def split: sum.splits option.splits)

lemma length_resolutions: "length (resolutions env force symbols s) = length symbols"
  by (induction symbols arbitrary: s) simp_all


lemma update_step_sleeps:
  "filter is_sleep (events (fst (update_step env force symbol s))) =
     filter is_sleep (events (fst s))
       @ (if fetched_now (fst (ensure_price env (fst s) symbol force)) then [Sleep 12] else [])"
proof -
  obtain w pg where s: "s = (w, pg)" by (cases s)
  obtain r w1 where e: "ensure_price env w symbol force = (r, w1)"
    by (cases "ensure_price env w symbol force")
  from ensure_price_events [OF e] obtain es where
    es: "events w1 = events w @ es" "\<forall>e\<in>set es. is_request e"
    by blast
  from es(2) have "filter is_sleep es = []"
    by (auto simp: filter_empty_conv is_request_def is_sleep_def split: event.splits)
  with es(1) have "filter is_sleep (events w1) = filter is_sleep (events w)" by simp
  then show ?thesis
    by (simp add: s e update_step_world [OF e] is_sleep_def)
qed

lemma update_loop_sleeps:
  "filter is_sleep (events (fst (update_loop env force symbols s))) =
     filter is_sleep (events (fst s))
       @ replicate (length (filter fetched_now (resolutions env force symbols s))) (Sleep 12)"
proof (induction symbols arbitrary: s)
  case Nil
  show ?case by simp
next
  case (Cons symbol symbols)
  show ?case
    by (simp add: Cons.IH update_step_sleeps replicate_app_Cons_same)
qed

lemma update_loop_calls_made:
  "calls_made (snd (update_loop env force symbols s)) =
     calls_made (snd s) + length (filter fetched_now (resolutions env force symbols s))"
proof (induction symbols arbitrary: s)
  case Nil
  show ?case by simp
next
  case (Cons symbol symbols)
  obtain w pg where s: "s = (w, pg)" by (cases s)
  obtain r w1 where e: "ensure_price env w symbol force = (r, w1)"
    by (cases "ensure_price env w symbol force")
  show ?case
    by (simp add: Cons.IH s e update_step_calls_made [OF e])
qed

lemma update_loop_all_cached:
  assumes "\<forall>r\<in>set (resolutions env force symbols s). served_from_cache r"
  shows "fst (update_loop env force symbols s) = fst s"
  using assms
proof (induction symbols arbitrary: s)
  case Nil
  show ?case by simp
next
  case (Cons symbol symbols)
  obtain w pg where s: "s = (w, pg)" by (cases s)
  obtain r w1 where e: "ensure_price env w symbol force = (r, w1)"
    by (cases "ensure_price env w symbol force")
  from Cons.prems have c: "served_from_cache r"
    and rest: "\<forall>r\<in>set (resolutions env force symbols (update_step env force symbol s)).
                 served_from_cache r"
    by (simp_all add: s e)
  from c obtain p a where r: "r = Inr (p, a, False)"
    by (auto simp: served_from_cache_def split: sum.splits)
  with ensure_price_world [OF e] have "w1 = w" by blast
  with update_step_world [OF e, of pg] r have "fst (update_step env force symbol s) = w"
    by (simp add: s fetched_now_def)
  with Cons.IH [OF rest] show ?case by (simp add: s)
qed

lemma update_step_warnings:
  "warnings (snd (update_step env force symbol s)) = warnings (snd s)"
  by (cases s)
    (auto simp: update_step_def Let_def split: prod.splits sum.splits option.splits)

lemma update_loop_warnings:
  "warnings (snd (update_loop env force symbols s)) = warnings (snd s)"
  by (induction symbols arbitrary: s) (simp_all add: update_step_warnings)

lemma update_step_requests:
  "length (filter is_request (events (fst s)))
     + (if fetched_now (fst (ensure_price env (fst s) symbol force)) then 1 else 0)
   \<le> length (filter is_request (events (fst (update_step env force symbol s))))"
proof -
  obtain w pg where s: "s = (w, pg)" by (cases s)
  obtain r w1 where e: "ensure_price env w symbol force = (r, w1)"
    by (cases "ensure_price env w symbol force")
  from ensure_price_events [OF e] obtain es where
    es: "events w1 = events w @ es" "\<forall>e\<in>set es. is_request e" "fetched_now r \<longrightarrow> es \<noteq> []"
    by blast
  from es(2) have "filter is_request es = es" by (simp add: filter_id_conv)
  with es(1) have "length (filter is_request (events w1))
      = length (filter is_request (events w)) + length es"
    by simp
  moreover from es(3) have "fetched_now r \<longrightarrow> Suc 0 \<le> length es"
    by (cases es) auto
  ultimately show ?thesis
    by (simp add: s e update_step_world [OF e] is_request_def)
qed

lemma update_loop_requests:
  "length (filter is_request (events (fst s)))
     + length (filter fetched_now (resolutions env force symbols s))
   \<le> length (filter is_request (events (fst (update_loop env force symbols s))))"
proof (induction symbols arbitrary: s)
  case Nil
  show ?case by simp
next
  case (Cons symbol symbols)
  from Cons.IH [of "update_step env force symbol s"]
    update_step_requests [of s env symbol force]
  show ?case by (simp split: if_splits)
qed

subsection \<open>What a pass leaves alone\<close>

lemma get_cached_price_rows:
  "filter (\<lambda>r. row_symbol r = x) (prices_daily w1) = filter (\<lambda>r. row_symbol r = x) (prices_daily w)
     \<Longrightarrow> get_cached_price w1 x = get_cached_price w x"
  by (simp add: get_cached_price_def)

lemma ensure_price_rows:
  assumes "ensure_price env w symbol force = (r, w1)"
  shows "x \<noteq> symbol \<or> (\<exists>e. r = Inl e) \<Longrightarrow>
           filter (\<lambda>r. row_symbol r = x) (prices_daily w1)
             = filter (\<lambda>r. row_symbol r = x) (prices_daily w)"
proof -
  assume a: "x \<noteq> symbol \<or> (\<exists>e. r = Inl e)"
  show ?thesis
  proof (cases r)
    case (Inl e)
    with ensure_price_world [OF assms] show ?thesis by simp
  next
    case (Inr v)
    obtain p a' b where v: "v = (p, a', b)" by (cases v)
    from a Inr have x: "x \<noteq> symbol" by auto
    show ?thesis
    proof (cases b)
      case True
      with ensure_price_world [OF assms] Inr v
      have "prices_daily w1 = prices_daily w @ [Row symbol p a']" by simp
      with x show ?thesis by simp
    next
      case False
      with ensure_price_world [OF assms] Inr v have "w1 = w" by simp
      then show ?thesis by simp
    qed
  qed
qed

lemma update_step_prices_daily:
  assumes "ensure_price env w symbol force = (r, w1)"
  shows "prices_daily (fst (update_step env force symbol (w, pg))) = prices_daily w1"
    and "fetch_calls (fst (update_step env force symbol (w, pg))) = fetch_calls w1"
  by (simp_all add: update_step_world [OF assms])

lemma update_step_fail:
  assumes "ensure_price env w symbol force = (Inl e, w1)"
  shows "snd (update_step env force symbol (w, pg)) =
           (case get_cached_price w symbol of
              None \<Rightarrow> pg\<lparr>errors := errors pg @ [(symbol, e)]\<rparr>
            | Some cached \<Rightarrow>
                pg\<lparr>errors := errors pg @ [(symbol, e)],
                   prices := AList.update symbol (row_price cached) (prices pg),
                   last_asof := AList.update symbol (row_asof cached) (last_asof pg)\<rparr>)"
proof -
  from ensure_price_rows [OF assms, of symbol]
  have "get_cached_price w1 symbol = get_cached_price w symbol"
    by (intro get_cached_price_rows) simp
  with assms show ?thesis
    by (simp add: update_step_def Let_def split: option.splits)
qed

lemma update_step_ok:
  assumes "ensure_price env w symbol force = (Inr (p, a, b), w1)"
  shows "snd (update_step env force symbol (w, pg)) =
           pg\<lparr>prices := AList.update symbol p (prices pg),
              last_asof := AList.update symbol a (last_asof pg),
              calls_made := (if b then Suc (calls_made pg) else calls_made pg)\<rparr>"
  using assms by (simp add: update_step_def Let_def)

lemma update_step_other:
  assumes "x \<noteq> symbol"
  shows "map_of (prices (snd (update_step env force symbol s))) x = map_of (prices (snd s)) x"
    and "map_of (last_asof (snd (update_step env force symbol s))) x = map_of (last_asof (snd s)) x"
    and "get_cached_price (fst (update_step env force symbol s)) x = get_cached_price (fst s) x"
proof -
  obtain w pg where s: "s = (w, pg)" by (cases s)
  obtain r w1 where e: "ensure_price env w symbol force = (r, w1)"
    by (cases "ensure_price env w symbol force")
  from assms ensure_price_rows [OF e, of x] update_step_prices_daily(1) [OF e, of pg]
  show "get_cached_price (fst (update_step env force symbol s)) x = get_cached_price (fst s) x"
    by (intro get_cached_price_rows) (simp add: s)
  show "map_of (prices (snd (update_step env force symbol s))) x = map_of (prices (snd s)) x"
  proof (cases r)
    case (Inl err)
    with e update_step_fail [of env w symbol force err w1 pg] assms show ?thesis
      by (simp add: s update_conv' split: option.splits)
  next
    case (Inr v)
    obtain p a b where "v = (p, a, b)" by (cases v)
    with Inr e update_step_ok [of env w symbol force p a b w1 pg] assms show ?thesis
      by (simp add: s update_conv')
  qed
  show "map_of (last_asof (snd (update_step env force symbol s))) x = map_of (last_asof (snd s)) x"
  proof (cases r)
    case (Inl err)
    with e update_step_fail [of env w symbol force err w1 pg] assms show ?thesis
      by (simp add: s update_conv' split: option.splits)
  next
    case (Inr v)
    obtain p a b where "v = (p, a, b)" by (cases v)
    with Inr e update_step_ok [of env w symbol force p a b w1 pg] assms show ?thesis
      by (simp add: s update_conv')
  qed
qed

lemma update_loop_other:
  assumes "x \<notin> set symbols"
  shows "map_of (prices (snd (update_loop env force symbols s))) x = map_of (prices (snd s)) x
       \<and> map_of (last_asof (snd (update_loop env force symbols s))) x = map_of (last_asof (snd s)) x
       \<and> get_cached_price (fst (update_loop env force symbols s)) x = get_cached_price (fst s) x"
  using assms
proof (induction symbols arbitrary: s)
  case Nil
  show ?case by simp
next
  case (Cons symbol symbols)
  from Cons.prems have x: "x \<noteq> symbol" "x \<notin> set symbols" by auto
  show ?case
    by (simp add: Cons.IH [OF x(2)] update_step_other [OF x(1)])
qed

lemma update_step_errors:
  "errors (snd (update_step env force symbol s)) =
     errors (snd s) @ failures [symbol] [fst (ensure_price env (fst s) symbol force)]"
proof -
  obtain w pg where s: "s = (w, pg)" by (cases s)
  obtain r w1 where e: "ensure_price env w symbol force = (r, w1)"
    by (cases "ensure_price env w symbol force")
  show ?thesis
  proof (cases r)
    case (Inl err)
    with e update_step_fail [of env w symbol force err w1 pg] show ?thesis
      by (simp add: s split: option.splits)
  next
    case (Inr v)
    obtain p a b where "v = (p, a, b)" by (cases v)
    with Inr e update_step_ok [of env w symbol force p a b w1 pg] show ?thesis
      by (simp add: s)
  qed
qed

lemma update_loop_errors:
  "errors (snd (update_loop env force symbols s)) =
     errors (snd s) @ failures symbols (resolutions env force symbols s)"
proof (induction symbols arbitrary: s)
  case Nil
  show ?case by simp
next
  case (Cons symbol symbols)
  show ?case
    by (cases "fst (ensure_price env (fst s) symbol force)")
      (simp_all add: Cons.IH update_step_errors)
qed

lemma update_step_fetch_calls:
  "fetch_calls (fst (update_step env force symbol s)) =
     fetch_calls (fst s)
       + (if served_from_cache (fst (ensure_price env (fst s) symbol force)) then 0 else 1)"
proof -
  obtain w pg where s: "s = (w, pg)" by (cases s)
  obtain r w1 where e: "ensure_price env w symbol force = (r, w1)"
    by (cases "ensure_price env w symbol force")
  have "fetch_calls w1 = fetch_calls w + (if served_from_cache r then 0 else 1)"
  proof (cases r)
    case (Inl err)
    with ensure_price_world [OF e] show ?thesis by (simp add: served_from_cache_def)
  next
    case (Inr v)
    obtain p a b where "v = (p, a, b)" by (cases v)
    with Inr ensure_price_world [OF e] show ?thesis
      by (cases b) (simp_all add: served_from_cache_def)
  qed
  with update_step_prices_daily(2) [OF e, of pg] show ?thesis by (simp add: s e)
qed

lemma update_loop_fetch_calls:
  "fetch_calls (fst (update_loop env force symbols s)) =
     fetch_calls (fst s)
       + length (filter (\<lambda>r. \<not> served_from_cache r) (resolutions env force symbols s))"
proof (induction symbols arbitrary: s)
  case Nil
  show ?case by simp
next
  case (Cons symbol symbols)
  show ?case by (simp add: Cons.IH update_step_fetch_calls)
qed


lemma failures_nth:
  assumes "length rs = length symbols" "i < length symbols" "rs ! i = Inl e"
  shows "(symbols ! i, e) \<in> set (failures symbols rs)"
  using assms
  by (induction symbols rs arbitrary: i rule: failures.induct)
    (auto simp: nth_Cons split: nat.splits)

lemma update_loop_entry:
  assumes "distinct symbols" "i < length symbols"
  shows "(\<forall>e. resolutions env force symbols s ! i = Inl e \<longrightarrow>
            map_of (prices (snd (update_loop env force symbols s))) (symbols ! i) =
              (case get_cached_price (fst s) (symbols ! i) of
                 None \<Rightarrow> map_of (prices (snd s)) (symbols ! i)
               | Some cached \<Rightarrow> Some (row_price cached))
          \<and> map_of (last_asof (snd (update_loop env force symbols s))) (symbols ! i) =
              (case get_cached_price (fst s) (symbols ! i) of
                 None \<Rightarrow> map_of (last_asof (snd s)) (symbols ! i)
               | Some cached \<Rightarrow> Some (row_asof cached)))
       \<and> (\<forall>p a b. resolutions env force symbols s ! i = Inr (p, a, b) \<longrightarrow>
            map_of (prices (snd (update_loop env force symbols s))) (symbols ! i) = Some p
          \<and> map_of (last_asof (snd (update_loop env force symbols s))) (symbols ! i) = Some a)"
  using assms
proof (induction symbols arbitrary: s i)
  case Nil
  then show ?case by simp
next
  case (Cons symbol symbols)
  from Cons.prems have d: "symbol \<notin> set symbols" "distinct symbols" by auto
  show ?case
  proof (cases i)
    case 0
    obtain w pg where s: "s = (w, pg)" by (cases s)
    obtain r w1 where e: "ensure_price env w symbol force = (r, w1)"
      by (cases "ensure_price env w symbol force")
    note rest = update_loop_other [OF d(1), of env force "update_step env force symbol s"]
    show ?thesis
    proof (cases r)
      case (Inl err)
      with e update_step_fail [of env w symbol force err w1 pg] rest show ?thesis
        by (simp add: 0 s update_conv' split: option.splits)
    next
      case (Inr v)
      obtain p a b where "v = (p, a, b)" by (cases v)
      with Inr e update_step_ok [of env w symbol force p a b w1 pg] rest show ?thesis
        by (simp add: 0 s update_conv')
    qed
  next
    case (Suc j)
    with Cons.prems have j: "j < length symbols" by simp
    then have "symbols ! j \<in> set symbols" by simp
    with d(1) have x: "symbols ! j \<noteq> symbol" by auto
    from Cons.IH [OF d(2) j, of "update_step env force symbol s"]
    show ?thesis
      by (simp add: Suc update_step_other [OF x] cong: option.case_cong)
  qed
qed

subsection \<open>When the price map stays empty\<close>

lemma update_step_prices_empty:
  "prices (snd (update_step env force symbol s)) = [] \<longleftrightarrow>
     prices (snd s) = []
       \<and> (\<exists>e. fst (ensure_price env (fst s) symbol force) = Inl e)
       \<and> get_cached_price (fst s) symbol = None"
proof -
  obtain w pg where s: "s = (w, pg)" by (cases s)
  obtain r w1 where e: "ensure_price env w symbol force = (r, w1)"
    by (cases "ensure_price env w symbol force")
  have ne: "AList.update k v al \<noteq> []" for k :: string and v :: 'a and al
    by (cases al) auto
  show ?thesis
  proof (cases r)
    case (Inl err)
    with e update_step_fail [of env w symbol force err w1 pg] show ?thesis
      by (simp add: s ne split: option.splits)
  next
    case (Inr v)
    obtain p a b where "v = (p, a, b)" by (cases v)
    with Inr e update_step_ok [of env w symbol force p a b w1 pg] show ?thesis
      by (simp add: s ne)
  qed
qed

lemma update_step_fail_store:
  assumes "fst (ensure_price env (fst s) symbol force) = Inl e"
  shows "get_cached_price (fst (update_step env force symbol s)) x = get_cached_price (fst s) x"
proof -
  obtain w pg where s: "s = (w, pg)" by (cases s)
  obtain r w1 where e: "ensure_price env w symbol force = (r, w1)"
    by (cases "ensure_price env w symbol force")
  from assms have r: "r = Inl e" by (simp add: s e)
  from ensure_price_rows [OF e, of x] r update_step_prices_daily(1) [OF e, of pg]
  show ?thesis
    by (intro get_cached_price_rows) (simp add: s)
qed

lemma update_loop_prices_empty:
  "prices (snd (update_loop env force symbols s)) = [] \<longleftrightarrow>
     prices (snd s) = []
       \<and> (\<forall>r\<in>set (resolutions env force symbols s). \<exists>e. r = Inl e)
       \<and> (\<forall>x\<in>set symbols. get_cached_price (fst s) x = None)"
proof (induction symbols arbitrary: s)
  case Nil
  show ?case by simp
next
  case (Cons symbol symbols)
  let ?s1 = "update_step env force symbol s"
  show ?case
  proof (cases "\<exists>e. fst (ensure_price env (fst s) symbol force) = Inl e")
    case True
    then obtain e where e: "fst (ensure_price env (fst s) symbol force) = Inl e" by blast
    have st: "get_cached_price (fst ?s1) x = get_cached_price (fst s) x" for x
      by (rule update_step_fail_store [OF e])
    show ?thesis
      by (simp add: Cons.IH update_step_prices_empty st e) blast
  next
    case False
    then show ?thesis
      by (simp add: Cons.IH update_step_prices_empty)
  qed
qed

lemma all_failed_none_fetched:
  assumes "\<forall>r\<in>set rs. \<exists>e. r = Inl e"
  shows "filter fetched_now rs = []"
  using assms by (auto simp: filter_empty_conv fetched_now_def)


lemmas demo_defs = demo_env_def nokey_env_def demo_provider_def empty_world_def cached_world_def
  shadowed_world_def

section \<open>The fetcher\<close>

text \<open>
  C8. With no provider API key configured, \<^verbatim>\<open>fetch_price_alpha_vantage\<close> fails with the
  missing-key error before any network call: for every symbol and every world the
  result is \<open>KeyMissing\<close>, no request is sent (the log of events is unchanged), and
  none of the three tiers runs.
\<close>

theorem fetch_key_missing:
  assumes "ALPHAVANTAGE_KEY env = []"
  shows "fetch_price_alpha_vantage env w symbol
           = (Inl KeyMissing, w\<lparr>fetch_calls := Suc (fetch_calls w)\<rparr>)
       \<and> events (snd (fetch_price_alpha_vantage env w symbol)) = events w"
  using assms by (simp add: fetch_price_alpha_vantage_def)

theorem fetch_key_missing_witness:
  "ALPHAVANTAGE_KEY nokey_env = []
   \<and> fetch_price_alpha_vantage nokey_env empty_world ''AAA''
       = (Inl KeyMissing, \<lparr>prices_daily = [], events = [], fetch_calls = 1\<rparr>)
   \<and> fst (fetch_price_alpha_vantage demo_env empty_world ''AAA'') = Inr (15 / 2, ''2026-11-03'')"
proof -
  have k: "ALPHAVANTAGE_KEY nokey_env = []" by (simp add: nokey_env_def)
  have ok: "fst (fetch_price_alpha_vantage demo_env empty_world ''AAA'')
              = Inr (15 / 2, ''2026-11-03'')"
    by (simp add: fetch_price_alpha_vantage_def tier1_def call_def py_or_def demo_defs)
  from fetch_key_missing [OF k, of empty_world "''AAA''"] k ok show ?thesis
    by (simp add: empty_world_def)
qed



text \<open>
  C2. \<^verbatim>\<open>fetch_price_alpha_vantage\<close> tries the three functions in order and swallows
  whatever the first two tiers raise. Whenever the snapshot tier and the daily tier each
  end without returning (by any exception or by finding nothing usable) and the adjusted
  tier gets a body without a diagnostic key, the three requests were sent in the order
  GLOBAL_QUOTE, TIME_SERIES_DAILY, TIME_SERIES_DAILY_ADJUSTED and the result is that of
  the last tier alone: for a non-empty series, the entry with the greatest date key, with
  the price taken from \<^verbatim>\<open>5. adjusted close\<close> when that field is present and non-empty and
  from \<^verbatim>\<open>4. close\<close> when it is absent or empty; for no series (absent, null or empty),
  the failure \<open>NoTimeSeries\<close>.
\<close>

theorem fetch_falls_back_to_adjusted_series:
  assumes key: "ALPHAVANTAGE_KEY env \<noteq> []"
    and t1: "tier1 env (w\<lparr>fetch_calls := Suc (fetch_calls w)\<rparr>) symbol = (r1, w1)"
    and f1: "\<forall>q. r1 \<noteq> Inr (Some q)"
    and t2: "tier2 env w1 symbol = (r2, w2)"
    and f2: "\<forall>q. r2 \<noteq> Inr (Some q)"
    and resp: "provider env (events w2)
                 (Request ''TIME_SERIES_DAILY_ADJUSTED'' (ALPHAVANTAGE_KEY env) symbol) = Body d2"
    and nodiag: "map_of d2 ''Information'' = None" "map_of d2 ''Note'' = None"
      "map_of d2 ''Error Message'' = None"
  shows "fetch_price_alpha_vantage env w symbol = tier3 env w2 symbol
       \<and> events (snd (fetch_price_alpha_vantage env w symbol)) =
           events w @ [HttpGet (Request ''GLOBAL_QUOTE'' (ALPHAVANTAGE_KEY env) symbol),
                       HttpGet (Request ''TIME_SERIES_DAILY'' (ALPHAVANTAGE_KEY env) symbol),
                       HttpGet (Request ''TIME_SERIES_DAILY_ADJUSTED'' (ALPHAVANTAGE_KEY env) symbol)]
       \<and> (\<forall>series last_row.
             map_of d2 ''Time Series (Daily)'' = Some (JSeries series) \<and> series \<noteq> []
               \<and> map_of series (Max (fst ` set series)) = Some last_row \<longrightarrow>
             (\<forall>k\<in>fst ` set series. k \<le> Max (fst ` set series))
             \<and> (Max (fst ` set series), last_row) \<in> set series
             \<and> (\<forall>a p. map_of last_row ''5. adjusted close'' = Some a \<and> a \<noteq> []
                        \<and> py_float env a = Some p \<longrightarrow>
                    fst (fetch_price_alpha_vantage env w symbol)
                      = Inr (p, Max (fst ` set series)))
             \<and> (\<forall>c p. map_of last_row ''5. adjusted close'' \<in> {None, Some []}
                        \<and> map_of last_row ''4. close'' = Some c \<and> py_float env c = Some p \<longrightarrow>
                    fst (fetch_price_alpha_vantage env w symbol)
                      = Inr (p, Max (fst ` set series))))
       \<and> (map_of d2 ''Time Series (Daily)'' \<in>
             {None, Some JNull, Some (JStr []), Some (JFields []), Some (JSeries [])} \<longrightarrow>
            fst (fetch_price_alpha_vantage env w symbol) = Inl NoTimeSeries)"
proof -
  let ?GQ = "HttpGet (Request ''GLOBAL_QUOTE'' (ALPHAVANTAGE_KEY env) symbol)"
  let ?TSD = "HttpGet (Request ''TIME_SERIES_DAILY'' (ALPHAVANTAGE_KEY env) symbol)"
  let ?ADJ = "HttpGet (Request ''TIME_SERIES_DAILY_ADJUSTED'' (ALPHAVANTAGE_KEY env) symbol)"
  let ?w3 = "w2\<lparr>events := events w2 @ [?ADJ]\<rparr>"
  have fetch: "fetch_price_alpha_vantage env w symbol = tier3 env w2 symbol"
    by (rule fetch_after_tier2 [OF key t1 f1 t2 f2])
  have c3: "call env w2 ''TIME_SERIES_DAILY_ADJUSTED'' symbol = (Inr d2, ?w3)"
    by (rule tier3_Body [OF resp nodiag])
  have e1: "events w1 = events w @ [?GQ]"
    using tier1_world [OF t1] by simp
  have e2: "events w2 = events w1 @ [?TSD]"
    using tier2_world [OF t2] by simp
  obtain r3 w3 where t3: "tier3 env w2 symbol = (r3, w3)"
    by (cases "tier3 env w2 symbol")
  have e3: "events w3 = events w2 @ [?ADJ]"
    using tier3_world [OF t3] by simp
  have order: "events (snd (fetch_price_alpha_vantage env w symbol)) = events w @ [?GQ, ?TSD, ?ADJ]"
    by (simp add: fetch t3 e1 e2 e3)
  have none: "fst (tier3 env w2 symbol) = Inl NoTimeSeries"
    if "map_of d2 ''Time Series (Daily)'' \<in>
          {None, Some JNull, Some (JStr []), Some (JFields []), Some (JSeries [])}"
    using that c3 by (auto simp: tier3_def latest_entry_Nil)
  have some: "(\<forall>k\<in>fst ` set series. k \<le> Max (fst ` set series))
             \<and> (Max (fst ` set series), last_row) \<in> set series
             \<and> (\<forall>a p. map_of last_row ''5. adjusted close'' = Some a \<and> a \<noteq> []
                        \<and> py_float env a = Some p \<longrightarrow>
                    fst (tier3 env w2 symbol) = Inr (p, Max (fst ` set series)))
             \<and> (\<forall>c p. map_of last_row ''5. adjusted close'' \<in> {None, Some []}
                        \<and> map_of last_row ''4. close'' = Some c \<and> py_float env c = Some p \<longrightarrow>
                    fst (tier3 env w2 symbol) = Inr (p, Max (fst ` set series)))"
    if s: "map_of d2 ''Time Series (Daily)'' = Some (JSeries series)" "series \<noteq> []"
      "map_of series (Max (fst ` set series)) = Some last_row"
    for series last_row
  proof -
    have le: "\<forall>k\<in>fst ` set series. k \<le> Max (fst ` set series)" by simp
    have mem: "(Max (fst ` set series), last_row) \<in> set series"
      using s(3) by (rule map_of_SomeD)
    have l: "latest_entry series = Some (Max (fst ` set series), last_row)"
      using latest_entry_Max [OF s(2)] s(3) by simp
    have adj: "fst (tier3 env w2 symbol) = Inr (p, Max (fst ` set series))"
      if "map_of last_row ''5. adjusted close'' = Some a" "a \<noteq> []" "py_float env a = Some p"
      for a p
      using that c3 s(1) l by (simp add: tier3_def py_or_def)
    have cl: "fst (tier3 env w2 symbol) = Inr (p, Max (fst ` set series))"
      if "map_of last_row ''5. adjusted close'' \<in> {None, Some []}"
        "map_of last_row ''4. close'' = Some c" "py_float env c = Some p"
      for c p
      using that c3 s(1) l by (auto simp: tier3_def py_or_def)
    from le mem adj cl show ?thesis by blast
  qed
  from fetch order none some show ?thesis
    by (simp only: fetch) blast
qed


theorem fetch_falls_back_to_adjusted_series_witness:
  "fetch_price_alpha_vantage demo_env empty_world ''CCC''
     = (Inr (25 / 2, ''2026-11-03''),
        \<lparr>prices_daily = [],
         events = [HttpGet (Request ''GLOBAL_QUOTE'' ''demo'' ''CCC''),
                   HttpGet (Request ''TIME_SERIES_DAILY'' ''demo'' ''CCC''),
                   HttpGet (Request ''TIME_SERIES_DAILY_ADJUSTED'' ''demo'' ''CCC'')],
         fetch_calls = 1\<rparr>)
   \<and> fst (fetch_price_alpha_vantage demo_env empty_world ''DDD'') = Inr (12, ''2026-11-03'')
   \<and> fst (fetch_price_alpha_vantage demo_env empty_world ''EEE'') = Inl NoTimeSeries"
proof -
  have key: "ALPHAVANTAGE_KEY demo_env \<noteq> []" by (simp add: demo_env_def)
  have nl: "\<forall>q. (Inl e :: error + (real \<times> string) option) \<noteq> Inr (Some q)" for e by simp
  have nn: "\<forall>q. (Inr None :: error + (real \<times> string) option) \<noteq> Inr (Some q)" by simp
  let ?w0 = "empty_world\<lparr>fetch_calls := Suc (fetch_calls empty_world)\<rparr>"
  let ?w1 = "\<lambda>s. \<lparr>prices_daily = [], events = [HttpGet (Request ''GLOBAL_QUOTE'' ''demo'' s)],
                 fetch_calls = 1\<rparr> :: real world"
  let ?w2 = "\<lambda>s. \<lparr>prices_daily = [],
                 events = [HttpGet (Request ''GLOBAL_QUOTE'' ''demo'' s),
                           HttpGet (Request ''TIME_SERIES_DAILY'' ''demo'' s)],
                 fetch_calls = 1\<rparr> :: real world"
  let ?w3 = "\<lambda>s. \<lparr>prices_daily = [],
                 events = [HttpGet (Request ''GLOBAL_QUOTE'' ''demo'' s),
                           HttpGet (Request ''TIME_SERIES_DAILY'' ''demo'' s),
                           HttpGet (Request ''TIME_SERIES_DAILY_ADJUSTED'' ''demo'' s)],
                 fetch_calls = 1\<rparr> :: real world"
  let ?rowC = "[(''4. close'', ''12.00''), (''5. adjusted close'', ''12.50'')]"
  let ?serC = "[(''2026-11-02'', [(''4. close'', ''11.00''), (''5. adjusted close'', ''11.50'')]),
                (''2026-11-03'', ?rowC)]"
  let ?bodyC = "[(''Time Series (Daily)'', JSeries ?serC)]"
  let ?rowD = "[(''4. close'', ''12.00'')]"
  let ?serD = "[(''2026-11-03'', ?rowD), (''2026-11-02'', [(''4. close'', ''11.00'')])]"
  let ?bodyD = "[(''Time Series (Daily)'', JSeries ?serD)]"
  let ?bodyE = "[(''Meta Data'', JFields [(''2. Symbol'', ''EEE'')])]"

  have C1: "tier1 demo_env ?w0 ''CCC'' = (Inl (RequestException ''503 Server Error''), ?w1 ''CCC'')"
    by (simp add: tier1_def call_def demo_defs)
  have C2: "tier2 demo_env (?w1 ''CCC'') ''CCC''
              = (Inl (ApiInfo (JStr ''premium endpoint'')), ?w2 ''CCC'')"
    by (simp add: tier2_def call_def demo_defs)
  have C3: "provider demo_env (events (?w2 ''CCC''))
              (Request ''TIME_SERIES_DAILY_ADJUSTED'' (ALPHAVANTAGE_KEY demo_env) ''CCC'')
              = Body ?bodyC"
    by (simp add: demo_defs)
  have ndC: "map_of ?bodyC ''Information'' = None" "map_of ?bodyC ''Note'' = None"
    "map_of ?bodyC ''Error Message'' = None"
    by simp_all
  have mC: "Max (fst ` set ?serC) = ''2026-11-03''" by simp
  have sC: "map_of ?bodyC ''Time Series (Daily)'' = Some (JSeries ?serC) \<and> ?serC \<noteq> []
              \<and> map_of ?serC (Max (fst ` set ?serC)) = Some ?rowC"
    by (simp only: mC) simp
  have aC: "map_of ?rowC ''5. adjusted close'' = Some ''12.50'' \<and> ''12.50'' \<noteq> []
              \<and> py_float demo_env ''12.50'' = Some (25 / 2)"
    by (simp add: demo_env_def)
  note tC = fetch_falls_back_to_adjusted_series [OF key C1 nl C2 nl C3 ndC]
  note evC = tC [THEN conjunct2, THEN conjunct1]
  note inC = tC [THEN conjunct2, THEN conjunct2, THEN conjunct1, rule_format, OF sC]
  note rC = inC [THEN conjunct2, THEN conjunct2, THEN conjunct1, rule_format, OF aC]
  obtain r w' where f: "fetch_price_alpha_vantage demo_env empty_world ''CCC'' = (r, w')"
    by (cases "fetch_price_alpha_vantage demo_env empty_world ''CCC''")
  from rC mC f have r: "r = Inr (25 / 2, ''2026-11-03'')" by simp
  from evC f have e: "events w' = events (?w3 ''CCC'')"
    by (simp add: demo_env_def empty_world_def)
  from fetch_world [OF f] have "prices_daily w' = [] \<and> fetch_calls w' = 1"
    by (simp add: empty_world_def)
  with e have "w' = ?w3 ''CCC''" by simp
  with r f have resC: "fetch_price_alpha_vantage demo_env empty_world ''CCC''
                = (Inr (25 / 2, ''2026-11-03''), ?w3 ''CCC'')"
    by simp

  have D1: "tier1 demo_env ?w0 ''DDD'' = (Inr None, ?w1 ''DDD'')"
    by (simp add: tier1_def call_def demo_defs)
  have D2: "tier2 demo_env (?w1 ''DDD'') ''DDD''
              = (Inl (ApiError (JStr ''Invalid API call'')), ?w2 ''DDD'')"
    by (simp add: tier2_def call_def demo_defs)
  have D3: "provider demo_env (events (?w2 ''DDD''))
              (Request ''TIME_SERIES_DAILY_ADJUSTED'' (ALPHAVANTAGE_KEY demo_env) ''DDD'')
              = Body ?bodyD"
    by (simp add: demo_defs)
  have ndD: "map_of ?bodyD ''Information'' = None" "map_of ?bodyD ''Note'' = None"
    "map_of ?bodyD ''Error Message'' = None"
    by simp_all
  have mD: "Max (fst ` set ?serD) = ''2026-11-03''" by simp
  have sD: "map_of ?bodyD ''Time Series (Daily)'' = Some (JSeries ?serD) \<and> ?serD \<noteq> []
              \<and> map_of ?serD (Max (fst ` set ?serD)) = Some ?rowD"
    by (simp only: mD) simp
  have aD: "map_of ?rowD ''5. adjusted close'' \<in> {None, Some []}
              \<and> map_of ?rowD ''4. close'' = Some ''12.00''
              \<and> py_float demo_env ''12.00'' = Some 12"
    by (simp add: demo_env_def)
  note tD = fetch_falls_back_to_adjusted_series [OF key D1 nn D2 nl D3 ndD]
  note inD = tD [THEN conjunct2, THEN conjunct2, THEN conjunct1, rule_format, OF sD]
  note rD' = inD [THEN conjunct2, THEN conjunct2, THEN conjunct2, rule_format, OF aD]
  from rD' mD
  have rD: "fst (fetch_price_alpha_vantage demo_env empty_world ''DDD'') = Inr (12, ''2026-11-03'')"
    by simp

  have E1: "tier1 demo_env ?w0 ''EEE'' = (Inr None, ?w1 ''EEE'')"
    by (simp add: tier1_def call_def demo_defs)
  have E2: "tier2 demo_env (?w1 ''EEE'') ''EEE'' = (Inr None, ?w2 ''EEE'')"
    by (simp add: tier2_def call_def demo_defs)
  have E3: "provider demo_env (events (?w2 ''EEE''))
              (Request ''TIME_SERIES_DAILY_ADJUSTED'' (ALPHAVANTAGE_KEY demo_env) ''EEE'')
              = Body ?bodyE"
    by (simp add: demo_defs)
  have ndE: "map_of ?bodyE ''Information'' = None" "map_of ?bodyE ''Note'' = None"
    "map_of ?bodyE ''Error Message'' = None"
    by simp_all
  have sE: "map_of ?bodyE ''Time Series (Daily)'' \<in>
             {None, Some JNull, Some (JStr []), Some (JFields []), Some (JSeries [])}"
    by simp
  note tE = fetch_falls_back_to_adjusted_series [OF key E1 nn E2 nn E3 ndE]
  note rE = tE [THEN conjunct2, THEN conjunct2, THEN conjunct2, rule_format, OF sE]
  from resC rD rE show ?thesis by simp
qed

text \<open>
  C6. Every network call goes through \<^verbatim>\<open>_call\<close>, which looks for the three diagnostic
  keys before it hands the body on as data: \<^verbatim>\<open>Information\<close> gives \<open>ApiInfo\<close>,
  else \<^verbatim>\<open>Note\<close> gives \<open>RateLimitHit\<close>, else \<^verbatim>\<open>Error Message\<close> gives \<open>ApiError\<close>,
  each carrying the provider's value; only a body with none of them is returned. A failure
  of \<^verbatim>\<open>_call\<close> is the failure of the tier that made the call, on each of the three
  tiers. On the snapshot tier it does not end \<^verbatim>\<open>fetch_price_alpha_vantage\<close>: the
  function goes on with the daily tier, so the request after GLOBAL_QUOTE is
  TIME_SERIES_DAILY.
\<close>

theorem call_checks_diagnostics:
  assumes resp: "provider env (events w) (Request func (ALPHAVANTAGE_KEY env) symbol) = Body data"
  shows "(\<forall>v. map_of data ''Information'' = Some v \<longrightarrow>
            fst (call env w func symbol) = Inl (ApiInfo v))
       \<and> (\<forall>v. map_of data ''Information'' = None \<and> map_of data ''Note'' = Some v \<longrightarrow>
            fst (call env w func symbol) = Inl (RateLimitHit v))
       \<and> (\<forall>v. map_of data ''Information'' = None \<and> map_of data ''Note'' = None
               \<and> map_of data ''Error Message'' = Some v \<longrightarrow>
            fst (call env w func symbol) = Inl (ApiError v))
       \<and> (map_of data ''Information'' = None \<and> map_of data ''Note'' = None
               \<and> map_of data ''Error Message'' = None \<longrightarrow>
            fst (call env w func symbol) = Inr data)
       \<and> (\<forall>e. fst (call env w func symbol) = Inl e \<longrightarrow>
            (func = ''GLOBAL_QUOTE'' \<longrightarrow> fst (tier1 env w symbol) = Inl e)
          \<and> (func = ''TIME_SERIES_DAILY'' \<longrightarrow> fst (tier2 env w symbol) = Inl e)
          \<and> (func = ''TIME_SERIES_DAILY_ADJUSTED'' \<longrightarrow> fst (tier3 env w symbol) = Inl e)
          \<and> (func = ''GLOBAL_QUOTE'' \<and> ALPHAVANTAGE_KEY env \<noteq> [] \<longrightarrow>
               fetch_price_alpha_vantage env w symbol =
                 (case tier2 env
                         (w\<lparr>fetch_calls := Suc (fetch_calls w),
                            events := events w
                              @ [HttpGet (Request ''GLOBAL_QUOTE'' (ALPHAVANTAGE_KEY env) symbol)]\<rparr>)
                         symbol of
                    (Inr (Some r), w2) \<Rightarrow> (Inr r, w2)
                  | (Inr None, w2) \<Rightarrow> tier3 env w2 symbol
                  | (Inl e2, w2) \<Rightarrow> tier3 env w2 symbol)
             \<and> take 2 (drop (length (events w))
                          (events (snd (fetch_price_alpha_vantage env w symbol)))) =
                 [HttpGet (Request ''GLOBAL_QUOTE'' (ALPHAVANTAGE_KEY env) symbol),
                  HttpGet (Request ''TIME_SERIES_DAILY'' (ALPHAVANTAGE_KEY env) symbol)]))"
proof -
  let ?GQ = "HttpGet (Request ''GLOBAL_QUOTE'' (ALPHAVANTAGE_KEY env) symbol)"
  let ?TSD = "HttpGet (Request ''TIME_SERIES_DAILY'' (ALPHAVANTAGE_KEY env) symbol)"
  let ?ADJ = "HttpGet (Request ''TIME_SERIES_DAILY_ADJUSTED'' (ALPHAVANTAGE_KEY env) symbol)"
  let ?w0 = "w\<lparr>fetch_calls := Suc (fetch_calls w)\<rparr>"
  let ?w1 = "w\<lparr>fetch_calls := Suc (fetch_calls w), events := events w @ [?GQ]\<rparr>"
  note c = call_Body [OF resp]
  have info: "fst (call env w func symbol) = Inl (ApiInfo v)"
    if "map_of data ''Information'' = Some v" for v
    using that by (simp add: c)
  have note': "fst (call env w func symbol) = Inl (RateLimitHit v)"
    if "map_of data ''Information'' = None \<and> map_of data ''Note'' = Some v" for v
    using that by (simp add: c)
  have err: "fst (call env w func symbol) = Inl (ApiError v)"
    if "map_of data ''Information'' = None \<and> map_of data ''Note'' = None
         \<and> map_of data ''Error Message'' = Some v" for v
    using that by (simp add: c)
  have ok: "fst (call env w func symbol) = Inr data"
    if "map_of data ''Information'' = None \<and> map_of data ''Note'' = None
         \<and> map_of data ''Error Message'' = None"
    using that by (simp add: c)
  have tiers: "(func = ''GLOBAL_QUOTE'' \<longrightarrow> fst (tier1 env w symbol) = Inl e)
          \<and> (func = ''TIME_SERIES_DAILY'' \<longrightarrow> fst (tier2 env w symbol) = Inl e)
          \<and> (func = ''TIME_SERIES_DAILY_ADJUSTED'' \<longrightarrow> fst (tier3 env w symbol) = Inl e)"
    if "fst (call env w func symbol) = Inl e" for e
  proof -
    from that obtain w' where "call env w func symbol = (Inl e, w')"
      by (cases "call env w func symbol") simp
    then show ?thesis
      by (auto dest: tier1_call_Inl tier2_call_Inl tier3_call_Inl)
  qed
  have fetch: "fetch_price_alpha_vantage env w symbol =
                 (case tier2 env ?w1 symbol of
                    (Inr (Some r), w2) \<Rightarrow> (Inr r, w2)
                  | (Inr None, w2) \<Rightarrow> tier3 env w2 symbol
                  | (Inl e2, w2) \<Rightarrow> tier3 env w2 symbol)
             \<and> take 2 (drop (length (events w))
                          (events (snd (fetch_price_alpha_vantage env w symbol)))) = [?GQ, ?TSD]"
    if e: "fst (call env w func symbol) = Inl e" and f: "func = ''GLOBAL_QUOTE''"
      and key: "ALPHAVANTAGE_KEY env \<noteq> []" for e
  proof -
    from e f obtain w' where "call env w ''GLOBAL_QUOTE'' symbol = (Inl e, w')"
      by (cases "call env w func symbol") simp
    then have "call env ?w0 ''GLOBAL_QUOTE'' symbol = (Inl e, w'\<lparr>fetch_calls := Suc (fetch_calls w)\<rparr>)"
      by (simp add: call_fetch_calls)
    then have t1': "tier1 env ?w0 symbol = (Inl e, w'\<lparr>fetch_calls := Suc (fetch_calls w)\<rparr>)"
      by (rule tier1_call_Inl)
    from tier1_world [OF t1'] have "w'\<lparr>fetch_calls := Suc (fetch_calls w)\<rparr> = ?w1" by simp
    with t1' have t1: "tier1 env ?w0 symbol = (Inl e, ?w1)" by simp
    have eq: "fetch_price_alpha_vantage env w symbol =
                 (case tier2 env ?w1 symbol of
                    (Inr (Some r), w2) \<Rightarrow> (Inr r, w2)
                  | (Inr None, w2) \<Rightarrow> tier3 env w2 symbol
                  | (Inl e2, w2) \<Rightarrow> tier3 env w2 symbol)"
      by (rule fetch_after_tier1 [OF key t1]) simp
    obtain r2 w2 where t2: "tier2 env ?w1 symbol = (r2, w2)"
      by (cases "tier2 env ?w1 symbol")
    from tier2_world [OF t2] have e2: "events w2 = events w @ [?GQ, ?TSD]" by simp
    obtain r3 w3 where t3: "tier3 env w2 symbol = (r3, w3)"
      by (cases "tier3 env w2 symbol")
    from tier3_world [OF t3] e2 have e3: "events w3 = events w @ [?GQ, ?TSD, ?ADJ]" by simp
    have "events (snd (fetch_price_alpha_vantage env w symbol)) = events w @ [?GQ, ?TSD]
        \<or> events (snd (fetch_price_alpha_vantage env w symbol)) = events w @ [?GQ, ?TSD, ?ADJ]"
      using t2 t3 e2 e3 by (simp add: eq split: sum.splits option.splits)
    then have "take 2 (drop (length (events w))
                 (events (snd (fetch_price_alpha_vantage env w symbol)))) = [?GQ, ?TSD]"
      by auto
    with eq show ?thesis by simp
  qed
  show ?thesis
  proof (intro conjI allI impI)
    fix v assume "map_of data ''Information'' = Some v"
    then show "fst (call env w func symbol) = Inl (ApiInfo v)" by (rule info)
  next
    fix v assume "map_of data ''Information'' = None \<and> map_of data ''Note'' = Some v"
    then show "fst (call env w func symbol) = Inl (RateLimitHit v)" by (rule note')
  next
    fix v assume "map_of data ''Information'' = None \<and> map_of data ''Note'' = None
         \<and> map_of data ''Error Message'' = Some v"
    then show "fst (call env w func symbol) = Inl (ApiError v)" by (rule err)
  next
    assume "map_of data ''Information'' = None \<and> map_of data ''Note'' = None
         \<and> map_of data ''Error Message'' = None"
    then show "fst (call env w func symbol) = Inr data" by (rule ok)
  next
    fix e assume e: "fst (call env w func symbol) = Inl e"
    {
      assume "func = ''GLOBAL_QUOTE''"
      then show "fst (tier1 env w symbol) = Inl e"
        by (rule tiers [OF e, THEN conjunct1, rule_format])
    }
    {
      assume "func = ''TIME_SERIES_DAILY''"
      then show "fst (tier2 env w symbol) = Inl e"
        by (rule tiers [OF e, THEN conjunct2, THEN conjunct1, rule_format])
    }
    {
      assume "func = ''TIME_SERIES_DAILY_ADJUSTED''"
      then show "fst (tier3 env w symbol) = Inl e"
        by (rule tiers [OF e, THEN conjunct2, THEN conjunct2, rule_format])
    }
    {
      assume a: "func = ''GLOBAL_QUOTE'' \<and> ALPHAVANTAGE_KEY env \<noteq> []"
      from fetch [OF e conjunct1 [OF a] conjunct2 [OF a]]
      show "fetch_price_alpha_vantage env w symbol =
                 (case tier2 env ?w1 symbol of
                    (Inr (Some r), w2) \<Rightarrow> (Inr r, w2)
                  | (Inr None, w2) \<Rightarrow> tier3 env w2 symbol
                  | (Inl e2, w2) \<Rightarrow> tier3 env w2 symbol)"
        by (rule conjunct1)
      from fetch [OF e conjunct1 [OF a] conjunct2 [OF a]]
      show "take 2 (drop (length (events w))
             (events (snd (fetch_price_alpha_vantage env w symbol)))) = [?GQ, ?TSD]"
        by (rule conjunct2)
    }
  qed
qed

theorem call_checks_diagnostics_witness:
  "fst (call demo_env empty_world ''GLOBAL_QUOTE'' ''BBB'')
     = Inl (RateLimitHit (JStr ''5 calls per minute''))
   \<and> fst (tier1 demo_env empty_world ''BBB'') = Inl (RateLimitHit (JStr ''5 calls per minute''))
   \<and> fetch_price_alpha_vantage demo_env empty_world ''BBB''
       = (Inr (25 / 2, ''2026-11-04''),
          \<lparr>prices_daily = [],
           events = [HttpGet (Request ''GLOBAL_QUOTE'' ''demo'' ''BBB''),
                     HttpGet (Request ''TIME_SERIES_DAILY'' ''demo'' ''BBB'')],
           fetch_calls = 1\<rparr>)"
proof -
  let ?body = "[(''Note'', JStr ''5 calls per minute'')]"
  have key: "ALPHAVANTAGE_KEY demo_env \<noteq> []" by (simp add: demo_env_def)
  have resp: "provider demo_env (events empty_world)
      (Request ''GLOBAL_QUOTE'' (ALPHAVANTAGE_KEY demo_env) ''BBB'') = Body ?body"
    by (simp add: demo_defs)
  have n: "map_of ?body ''Information'' = None
             \<and> map_of ?body ''Note'' = Some (JStr ''5 calls per minute'')"
    by simp
  note t = call_checks_diagnostics [OF resp]
  note c = t [THEN conjunct2, THEN conjunct1, rule_format, OF n]
  note rest = t [THEN conjunct2, THEN conjunct2, THEN conjunct2, THEN conjunct2, rule_format, OF c]
  have t1: "fst (tier1 demo_env empty_world ''BBB'') = Inl (RateLimitHit (JStr ''5 calls per minute''))"
    using rest [THEN conjunct1] by simp
  have "''GLOBAL_QUOTE'' = ''GLOBAL_QUOTE'' \<and> ALPHAVANTAGE_KEY demo_env \<noteq> []"
    using key by simp
  note f = rest [THEN conjunct2, THEN conjunct2, THEN conjunct2, rule_format, OF this, THEN conjunct1]
  have "fetch_price_alpha_vantage demo_env empty_world ''BBB''
       = (Inr (25 / 2, ''2026-11-04''),
          \<lparr>prices_daily = [],
           events = [HttpGet (Request ''GLOBAL_QUOTE'' ''demo'' ''BBB''),
                     HttpGet (Request ''TIME_SERIES_DAILY'' ''demo'' ''BBB'')],
           fetch_calls = 1\<rparr>)"
    unfolding f by (simp add: tier2_def call_def latest_entry_def demo_defs)
  with c t1 show ?thesis by simp
qed

section \<open>The resolution policy\<close>

text \<open>
  C1, as the claim states it, fails: a row of today is not enough when it is not the latest
  row of the symbol. With a row of 4 November and a row of 5 November for \<open>AAA\<close>,
  \<^verbatim>\<open>get_cached_price\<close> returns the row of 5 November, which is not of today, and
  \<^verbatim>\<open>ensure_price\<close> fetches.
\<close>

theorem ensure_price_shadowed_today_row_counterexample:
  "Row ''AAA'' (29 / 4) ''2026-11-04'' \<in> set (prices_daily shadowed_world)
   \<and> dt_parse demo_env ''2026-11-04'' = Some (today demo_env)
   \<and> get_cached_price shadowed_world ''AAA'' = Some (Row ''AAA'' 8 ''2026-11-05'')
   \<and> dt_parse demo_env ''2026-11-05'' = Some (2026, 11, 5)
   \<and> today demo_env = (2026, 11, 4)
   \<and> ensure_price demo_env shadowed_world ''AAA'' False
       = (Inr (15 / 2, ''2026-11-03'', True),
          \<lparr>prices_daily = [Row ''AAA'' (29 / 4) ''2026-11-04'', Row ''AAA'' 8 ''2026-11-05'',
                           Row ''AAA'' (15 / 2) ''2026-11-03''],
           events = [HttpGet (Request ''GLOBAL_QUOTE'' ''demo'' ''AAA'')],
           fetch_calls = 1\<rparr>)"
  by (simp add: ensure_price_def get_cached_price_def cache_price_def
      fetch_price_alpha_vantage_def tier1_def call_def py_or_def demo_defs)

text \<open>
  C1, amended. When a symbol has a row in the store whose as-of date parses to today's date
  and no row of the symbol has a greater as-of (in the order of the store's
  \<^verbatim>\<open>order("asof", desc=True)\<close>), \<^verbatim>\<open>ensure_price\<close> with \<^verbatim>\<open>force_refresh=False\<close> is
  served from the cache: it returns that as-of and the price of a row of the symbol with
  that as-of, the row itself when no other row of the symbol shares its as-of, with
  \<^verbatim>\<open>fetched_now = False\<close>, and the world is unchanged:
  \<^verbatim>\<open>fetch_price_alpha_vantage\<close> is not invoked and no request is sent.
\<close>

theorem ensure_price_cache_hit:
  assumes mem: "cached \<in> set (prices_daily w)"
    and sym: "row_symbol cached = symbol"
    and today: "dt_parse env (row_asof cached) = Some (today env)"
    and latest: "\<forall>r\<in>set (prices_daily w). row_symbol r = symbol \<longrightarrow> row_asof r \<le> row_asof cached"
  shows "(\<exists>c\<in>set (prices_daily w).
            row_symbol c = symbol \<and> row_asof c = row_asof cached
            \<and> ensure_price env w symbol False = (Inr (row_price c, row_asof cached, False), w))
       \<and> ((\<forall>r\<in>set (prices_daily w).
              row_symbol r = symbol \<and> row_asof r = row_asof cached \<longrightarrow> r = cached) \<longrightarrow>
            ensure_price env w symbol False
              = (Inr (row_price cached, row_asof cached, False), w))
       \<and> fetch_calls (snd (ensure_price env w symbol False)) = fetch_calls w
       \<and> events (snd (ensure_price env w symbol False)) = events w"
proof -
  from mem sym have "get_cached_price w symbol \<noteq> None"
    by (auto simp: get_cached_price_None)
  then obtain c where c: "get_cached_price w symbol = Some c" by auto
  from get_cached_price_Some [OF c]
  have cm: "c \<in> set (prices_daily w)" and cs: "row_symbol c = symbol"
    and cmax: "\<forall>r\<in>set (prices_daily w). row_symbol r = symbol \<longrightarrow> row_asof r \<le> row_asof c"
    by auto
  from cmax mem sym have "row_asof cached \<le> row_asof c" by auto
  moreover from latest cm cs have "row_asof c \<le> row_asof cached" by auto
  ultimately have ca: "row_asof c = row_asof cached" by simp
  with c today have run: "ensure_price env w symbol False
      = (Inr (row_price c, row_asof cached, False), w)"
    by (simp add: ensure_price_def)
  have uniq: "ensure_price env w symbol False
              = (Inr (row_price cached, row_asof cached, False), w)"
    if "\<forall>r\<in>set (prices_daily w).
          row_symbol r = symbol \<and> row_asof r = row_asof cached \<longrightarrow> r = cached"
  proof -
    from that cm cs ca have "c = cached" by auto
    with run show ?thesis by simp
  qed
  from cm cs ca run have ex: "\<exists>c\<in>set (prices_daily w).
            row_symbol c = symbol \<and> row_asof c = row_asof cached
            \<and> ensure_price env w symbol False = (Inr (row_price c, row_asof cached, False), w)"
    by blast
  from ex uniq run show ?thesis by simp
qed

theorem ensure_price_cache_hit_witness:
  "Row ''AAA'' (29 / 4) ''2026-11-04'' \<in> set (prices_daily cached_world)
   \<and> dt_parse demo_env ''2026-11-04'' = Some (today demo_env)
   \<and> ensure_price demo_env cached_world ''AAA'' False
       = (Inr (29 / 4, ''2026-11-04'', False), cached_world)
   \<and> fetch_calls cached_world = 0 \<and> events cached_world = []"
proof -
  let ?c = "Row ''AAA'' (29 / 4 :: real) ''2026-11-04''"
  have mem: "?c \<in> set (prices_daily cached_world)" by (simp add: cached_world_def)
  have sym: "row_symbol ?c = ''AAA''" by simp
  have d: "dt_parse demo_env (row_asof ?c) = Some (today demo_env)"
    by (simp add: demo_env_def)
  have latest: "\<forall>r\<in>set (prices_daily cached_world).
      row_symbol r = ''AAA'' \<longrightarrow> row_asof r \<le> row_asof ?c"
    by (simp add: cached_world_def)
  have uniq: "\<forall>r\<in>set (prices_daily cached_world).
      row_symbol r = ''AAA'' \<and> row_asof r = row_asof ?c \<longrightarrow> r = ?c"
    by (simp add: cached_world_def)
  from ensure_price_cache_hit [OF mem sym d latest, THEN conjunct2, THEN conjunct1, THEN mp,
      OF uniq]
  have "ensure_price demo_env cached_world ''AAA'' False
       = (Inr (29 / 4, ''2026-11-04'', False), cached_world)"
    by simp
  with mem d show ?thesis by (simp add: cached_world_def)
qed

text \<open>
  C5, as the claim states it, fails: the new row does not carry today's date. On
  4 November 2026 the snapshot of \<open>AAA\<close> reports the trading day 3 November, and that is
  the as-of date of the row written.
\<close>

theorem ensure_price_asof_not_today_counterexample:
  "prices_daily empty_world = []
   \<and> ensure_price demo_env empty_world ''AAA'' False
       = (Inr (15 / 2, ''2026-11-03'', True),
          \<lparr>prices_daily = [Row ''AAA'' (15 / 2) ''2026-11-03''],
           events = [HttpGet (Request ''GLOBAL_QUOTE'' ''demo'' ''AAA'')],
           fetch_calls = 1\<rparr>)
   \<and> today demo_env = (2026, 11, 4)
   \<and> dt_parse demo_env ''2026-11-03'' = Some (2026, 11, 3)
   \<and> dt_parse demo_env ''2026-11-03'' \<noteq> Some (today demo_env)"
  by (simp add: ensure_price_def get_cached_price_def cache_price_def
      fetch_price_alpha_vantage_def tier1_def call_def py_or_def demo_defs)

text \<open>
  C5, amended. For a symbol with no row in the store, \<^verbatim>\<open>ensure_price\<close> with
  \<^verbatim>\<open>force_refresh=False\<close> invokes \<^verbatim>\<open>fetch_price_alpha_vantage\<close> exactly once. When the
  fetch succeeds with a price and an as-of string, the result is that price and string with
  \<^verbatim>\<open>fetched_now = True\<close>, and the store gains exactly one row: the symbol, the price
  and the as-of string that the provider reported (its trading day, which need not be
  today). When the fetch fails, its error is the result and the store is unchanged.
\<close>

theorem ensure_price_cache_miss:
  assumes "\<forall>r\<in>set (prices_daily w). row_symbol r \<noteq> symbol"
    and "ensure_price env w symbol False = (res, w')"
  shows "fetch_calls w' = Suc (fetch_calls w)
       \<and> (\<forall>p a b. res = Inr (p, a, b) \<longrightarrow>
             b \<and> fst (fetch_price_alpha_vantage env w symbol) = Inr (p, a)
               \<and> prices_daily w' = prices_daily w @ [Row symbol p a])
       \<and> (\<forall>e. res = Inl e \<longrightarrow>
             fst (fetch_price_alpha_vantage env w symbol) = Inl e
               \<and> prices_daily w' = prices_daily w)"
proof -
  from assms(1) have miss: "get_cached_price w symbol = None"
    by (simp add: get_cached_price_None)
  obtain r w1 where f: "fetch_price_alpha_vantage env w symbol = (r, w1)"
    by (cases "fetch_price_alpha_vantage env w symbol")
  from fetch_world [OF f]
  have w1: "prices_daily w1 = prices_daily w" "fetch_calls w1 = Suc (fetch_calls w)"
    by simp_all
  from assms(2) miss f w1 show ?thesis
    by (auto simp: ensure_price_def cache_price_def split: sum.splits)
qed

theorem ensure_price_cache_miss_witness:
  "prices_daily empty_world = []
   \<and> ensure_price demo_env empty_world ''BBB'' False
       = (Inr (25 / 2, ''2026-11-04'', True),
          \<lparr>prices_daily = [Row ''BBB'' (25 / 2) ''2026-11-04''],
           events = [HttpGet (Request ''GLOBAL_QUOTE'' ''demo'' ''BBB''),
                     HttpGet (Request ''TIME_SERIES_DAILY'' ''demo'' ''BBB'')],
           fetch_calls = 1\<rparr>)
   \<and> fst (fetch_price_alpha_vantage demo_env empty_world ''BBB'') = Inr (25 / 2, ''2026-11-04'')"
proof -
  let ?w' = "\<lparr>prices_daily = [Row ''BBB'' (25 / 2 :: real) ''2026-11-04''],
           events = [HttpGet (Request ''GLOBAL_QUOTE'' ''demo'' ''BBB''),
                     HttpGet (Request ''TIME_SERIES_DAILY'' ''demo'' ''BBB'')],
           fetch_calls = 1\<rparr>"
  have none: "\<forall>r\<in>set (prices_daily empty_world). row_symbol r \<noteq> ''BBB''"
    by (simp add: empty_world_def)
  have run: "ensure_price demo_env empty_world ''BBB'' False
               = (Inr (25 / 2, ''2026-11-04'', True), ?w')"
    by (simp add: ensure_price_def get_cached_price_def cache_price_def
        fetch_price_alpha_vantage_def tier1_def tier2_def call_def latest_entry_def demo_defs)
  from ensure_price_cache_miss [OF none run]
  have "fst (fetch_price_alpha_vantage demo_env empty_world ''BBB'') = Inr (25 / 2, ''2026-11-04'')"
    by blast
  with run show ?thesis by (simp add: empty_world_def)
qed

text \<open>
  C7. When the latest cached row of a symbol has an as-of date that does not parse,
  \<^verbatim>\<open>ensure_price\<close> with \<^verbatim>\<open>force_refresh=False\<close> does not fail on it: it goes on to one
  fresh fetch, exactly as with \<^verbatim>\<open>force_refresh=True\<close>, and its answer is the answer it
  gives on the store without the rows of that symbol. Only an error of the fetch itself can
  reach the caller.
\<close>

theorem ensure_price_unparseable_asof:
  assumes "get_cached_price w symbol = Some cached"
    and "dt_parse env (row_asof cached) = None"
  shows "ensure_price env w symbol False =
           (case fetch_price_alpha_vantage env w symbol of
              (Inl e, w') \<Rightarrow> (Inl e, w')
            | (Inr (p, a), w') \<Rightarrow> (Inr (p, a, True), cache_price w' symbol p a))
       \<and> ensure_price env w symbol False = ensure_price env w symbol True
       \<and> fetch_calls (snd (ensure_price env w symbol False)) = Suc (fetch_calls w)
       \<and> fst (ensure_price env w symbol False) =
           fst (ensure_price env
                 (w\<lparr>prices_daily := filter (\<lambda>r. row_symbol r \<noteq> symbol) (prices_daily w)\<rparr>)
                 symbol False)"
proof -
  let ?w = "w\<lparr>prices_daily := filter (\<lambda>r. row_symbol r \<noteq> symbol) (prices_daily w)\<rparr>"
  obtain r w1 where f: "fetch_price_alpha_vantage env w symbol = (r, w1)"
    by (cases "fetch_price_alpha_vantage env w symbol")
  from fetch_world [OF f] have w1: "fetch_calls w1 = Suc (fetch_calls w)" by simp
  have absent: "get_cached_price ?w symbol = None"
    by (simp add: get_cached_price_None)
  have f': "fetch_price_alpha_vantage env ?w symbol
              = (r, w1\<lparr>prices_daily := filter (\<lambda>r. row_symbol r \<noteq> symbol) (prices_daily w)\<rparr>)"
    by (simp add: fetch_store f)
  from assms f w1 have a: "ensure_price env w symbol False =
           (case fetch_price_alpha_vantage env w symbol of
              (Inl e, w') \<Rightarrow> (Inl e, w')
            | (Inr (p, a), w') \<Rightarrow> (Inr (p, a, True), cache_price w' symbol p a))
       \<and> ensure_price env w symbol False = ensure_price env w symbol True
       \<and> fetch_calls (snd (ensure_price env w symbol False)) = Suc (fetch_calls w)"
    by (auto simp: ensure_price_def cache_price_def split: sum.splits)
  from assms f have b: "fst (ensure_price env w symbol False) = map_sum id (\<lambda>(p, a). (p, a, True)) r"
    by (auto simp: ensure_price_def split: sum.splits)
  from absent f' have c: "fst (ensure_price env ?w symbol False) = map_sum id (\<lambda>(p, a). (p, a, True)) r"
    by (auto simp: ensure_price_def split: sum.splits)
  from b c have "fst (ensure_price env w symbol False) = fst (ensure_price env ?w symbol False)"
    by simp
  with a show ?thesis by blast
qed

theorem ensure_price_unparseable_asof_witness:
  "get_cached_price cached_world ''BBB'' = Some (Row ''BBB'' 5 ''n/a'')
   \<and> dt_parse demo_env ''n/a'' = None
   \<and> fst (ensure_price demo_env cached_world ''BBB'' False) = Inr (25 / 2, ''2026-11-04'', True)
   \<and> fst (ensure_price demo_env cached_world ''BBB'' True) = Inr (25 / 2, ''2026-11-04'', True)"
proof -
  have c: "get_cached_price cached_world ''BBB'' = Some (Row ''BBB'' 5 ''n/a'')"
    by (simp add: get_cached_price_def cached_world_def)
  have d: "dt_parse demo_env (row_asof (Row ''BBB'' (5 :: real) ''n/a'')) = None"
    by (simp add: demo_env_def)
  have forced: "fst (ensure_price demo_env cached_world ''BBB'' True)
                  = Inr (25 / 2, ''2026-11-04'', True)"
    by (simp add: ensure_price_def cache_price_def
        fetch_price_alpha_vantage_def tier1_def tier2_def call_def latest_entry_def demo_defs)
  from ensure_price_unparseable_asof [OF c d]
  have "ensure_price demo_env cached_world ''BBB'' False
          = ensure_price demo_env cached_world ''BBB'' True"
    by blast
  with c d forced show ?thesis by simp
qed

section \<open>The update loop\<close>

text \<open>
  C3. In the update loop a pause of 12 follows each resolution that returned
  \<^verbatim>\<open>fetched_now = True\<close>, directly after that resolution's requests, and nothing else
  pauses: the pauses of a run are one \<open>Sleep 12\<close> per such resolution. A batch of N symbols
  whose resolutions all fetched takes exactly N pauses; a batch served entirely from cache
  takes none and leaves the world as it was.
\<close>

theorem update_loop_cooldown:
  assumes "update_loop env force symbols (w, pg) = (w', pg')"
  shows "filter is_sleep (events w') =
           filter is_sleep (events w)
             @ replicate (length (filter fetched_now (resolutions env force symbols (w, pg))))
                 (Sleep 12)
       \<and> ((\<forall>r\<in>set (resolutions env force symbols (w, pg)). fetched_now r) \<longrightarrow>
            filter is_sleep (events w') =
              filter is_sleep (events w) @ replicate (length symbols) (Sleep 12))
       \<and> ((\<forall>r\<in>set (resolutions env force symbols (w, pg)). served_from_cache r) \<longrightarrow>
            filter is_sleep (events w') = filter is_sleep (events w) \<and> w' = w)
       \<and> (\<forall>symbol w0 pg0.
            events (fst (update_step env force symbol (w0, pg0))) =
              events (snd (ensure_price env w0 symbol force))
                @ (if fetched_now (fst (ensure_price env w0 symbol force)) then [Sleep 12]
                   else []))"
proof -
  let ?res = "resolutions env force symbols (w, pg)"
  have gen: "filter is_sleep (events w') =
           filter is_sleep (events w) @ replicate (length (filter fetched_now ?res)) (Sleep 12)"
    using update_loop_sleeps [of env force symbols "(w, pg)"] assms by simp
  have all: "filter is_sleep (events w') =
              filter is_sleep (events w) @ replicate (length symbols) (Sleep 12)"
    if "\<forall>r\<in>set ?res. fetched_now r"
  proof -
    from that have "filter fetched_now ?res = ?res" by (simp add: filter_id_conv)
    with gen show ?thesis by (simp add: length_resolutions)
  qed
  have none: "filter is_sleep (events w') = filter is_sleep (events w) \<and> w' = w"
    if "\<forall>r\<in>set ?res. served_from_cache r"
    using update_loop_all_cached [OF that] assms by simp
  have step: "events (fst (update_step env force symbol (w0, pg0))) =
              events (snd (ensure_price env w0 symbol force))
                @ (if fetched_now (fst (ensure_price env w0 symbol force)) then [Sleep 12]
                   else [])" for symbol w0 pg0
  proof -
    obtain r w1 where e: "ensure_price env w0 symbol force = (r, w1)"
      by (cases "ensure_price env w0 symbol force")
    show ?thesis by (simp add: e update_step_world [OF e])
  qed
  from gen all none step show ?thesis by blast
qed


theorem update_loop_cooldown_witness:
  "update_loop demo_env False [''AAA'', ''BBB''] (empty_world, fresh_page)
     = (\<lparr>prices_daily = [Row ''AAA'' (15 / 2) ''2026-11-03'', Row ''BBB'' (25 / 2) ''2026-11-04''],
         events = [HttpGet (Request ''GLOBAL_QUOTE'' ''demo'' ''AAA''), Sleep 12,
                   HttpGet (Request ''GLOBAL_QUOTE'' ''demo'' ''BBB''),
                   HttpGet (Request ''TIME_SERIES_DAILY'' ''demo'' ''BBB''), Sleep 12],
         fetch_calls = 2\<rparr>,
        \<lparr>prices = [(''AAA'', 15 / 2), (''BBB'', 25 / 2)],
         last_asof = [(''AAA'', ''2026-11-03''), (''BBB'', ''2026-11-04'')],
         calls_made = 2, errors = [], warnings = []\<rparr>)
   \<and> resolutions demo_env False [''AAA'', ''BBB''] (empty_world, fresh_page)
       = [Inr (15 / 2, ''2026-11-03'', True), Inr (25 / 2, ''2026-11-04'', True)]
   \<and> resolutions demo_env False [''AAA''] (cached_world, fresh_page)
       = [Inr (29 / 4, ''2026-11-04'', False)]
   \<and> fst (update_loop demo_env False [''AAA''] (cached_world, fresh_page)) = cached_world
   \<and> events cached_world = []"
proof -
  let ?W = "\<lparr>prices_daily = [Row ''AAA'' (15 / 2 :: real) ''2026-11-03'',
                             Row ''BBB'' (25 / 2) ''2026-11-04''],
         events = [HttpGet (Request ''GLOBAL_QUOTE'' ''demo'' ''AAA''), Sleep 12,
                   HttpGet (Request ''GLOBAL_QUOTE'' ''demo'' ''BBB''),
                   HttpGet (Request ''TIME_SERIES_DAILY'' ''demo'' ''BBB''), Sleep 12],
         fetch_calls = 2\<rparr>"
  let ?P = "\<lparr>prices = [(''AAA'', 15 / 2 :: real), (''BBB'', 25 / 2)],
         last_asof = [(''AAA'', ''2026-11-03''), (''BBB'', ''2026-11-04'')],
         calls_made = 2, errors = [], warnings = []\<rparr>"
  have A: "ensure_price demo_env empty_world ''AAA'' False
             = (Inr (15 / 2, ''2026-11-03'', True),
                \<lparr>prices_daily = [Row ''AAA'' (15 / 2) ''2026-11-03''],
                 events = [HttpGet (Request ''GLOBAL_QUOTE'' ''demo'' ''AAA'')],
                 fetch_calls = Suc 0\<rparr>)"
    by (simp add: ensure_price_def get_cached_price_def cache_price_def
        fetch_price_alpha_vantage_def tier1_def call_def py_or_def demo_defs)
  have sA: "update_step demo_env False ''AAA'' (empty_world, fresh_page)
             = (\<lparr>prices_daily = [Row ''AAA'' (15 / 2) ''2026-11-03''],
                 events = [HttpGet (Request ''GLOBAL_QUOTE'' ''demo'' ''AAA''), Sleep 12],
                 fetch_calls = Suc 0\<rparr>,
                \<lparr>prices = [(''AAA'', 15 / 2)], last_asof = [(''AAA'', ''2026-11-03'')],
                 calls_made = Suc 0, errors = [], warnings = []\<rparr>)"
    by (simp add: update_step_def A fresh_page_def)
  let ?w1 = "\<lparr>prices_daily = [Row ''AAA'' (15 / 2 :: real) ''2026-11-03''],
                 events = [HttpGet (Request ''GLOBAL_QUOTE'' ''demo'' ''AAA''), Sleep 12],
                 fetch_calls = Suc 0\<rparr>"
  have B: "ensure_price demo_env ?w1 ''BBB'' False
             = (Inr (25 / 2, ''2026-11-04'', True),
                \<lparr>prices_daily = [Row ''AAA'' (15 / 2) ''2026-11-03'',
                                 Row ''BBB'' (25 / 2) ''2026-11-04''],
                 events = [HttpGet (Request ''GLOBAL_QUOTE'' ''demo'' ''AAA''), Sleep 12,
                           HttpGet (Request ''GLOBAL_QUOTE'' ''demo'' ''BBB''),
                           HttpGet (Request ''TIME_SERIES_DAILY'' ''demo'' ''BBB'')],
                 fetch_calls = 2\<rparr>)"
    by (simp add: ensure_price_def get_cached_price_def cache_price_def
        fetch_price_alpha_vantage_def tier1_def tier2_def call_def latest_entry_def demo_defs)
  have sB: "update_step demo_env False ''BBB''
               (?w1, \<lparr>prices = [(''AAA'', 15 / 2)], last_asof = [(''AAA'', ''2026-11-03'')],
                      calls_made = Suc 0, errors = [], warnings = []\<rparr>)
             = (?W, ?P)"
    by (simp add: update_step_def B)
  have run: "update_loop demo_env False [''AAA'', ''BBB''] (empty_world, fresh_page) = (?W, ?P)"
    by (simp only: update_loop.simps sA sB)
  have res: "resolutions demo_env False [''AAA'', ''BBB''] (empty_world, fresh_page)
       = [Inr (15 / 2, ''2026-11-03'', True), Inr (25 / 2, ''2026-11-04'', True)]"
    by (simp only: resolutions.simps fst_conv sA A B)
  have C: "ensure_price demo_env cached_world ''AAA'' False
             = (Inr (29 / 4, ''2026-11-04'', False), cached_world)"
    by (simp add: ensure_price_def get_cached_price_def demo_defs)
  have resC: "resolutions demo_env False [''AAA''] (cached_world, fresh_page)
       = [Inr (29 / 4, ''2026-11-04'', False)]"
    by (simp only: resolutions.simps fst_conv C)
  obtain w' pg' where runC: "update_loop demo_env False [''AAA''] (cached_world, fresh_page) = (w', pg')"
    by (cases "update_loop demo_env False [''AAA''] (cached_world, fresh_page)")
  have allC: "\<forall>r\<in>set (resolutions demo_env False [''AAA''] (cached_world, fresh_page)).
                served_from_cache r"
    unfolding resC by (simp add: served_from_cache_def)
  from update_loop_cooldown [OF runC, THEN conjunct2, THEN conjunct2, THEN conjunct1, THEN mp,
      OF allC]
  have "w' = cached_world" by (rule conjunct2)
  with runC have c: "fst (update_loop demo_env False [''AAA''] (cached_world, fresh_page)) = cached_world"
    by simp
  have allF: "\<forall>r\<in>set (resolutions demo_env False [''AAA'', ''BBB''] (empty_world, fresh_page)).
                fetched_now r"
    unfolding res by (simp add: fetched_now_def)
  from update_loop_cooldown [OF run, THEN conjunct2, THEN conjunct1, THEN mp, OF allF]
  have "filter is_sleep (events ?W) = filter is_sleep (events empty_world) @ [Sleep 12, Sleep 12]"
    by (simp add: numeral_2_eq_2)
  with run res resC c show ?thesis by (simp add: cached_world_def)
qed

text \<open>
  C4. A resolution that raises does not end the loop. Every symbol of the list is resolved;
  what \<^verbatim>\<open>st.error\<close> shows is exactly the failing symbols with their exceptions, in
  order; \<^verbatim>\<open>fetch_price_alpha_vantage\<close> runs once per symbol not served from cache and
  is not tried again for a failing one. For a list of distinct symbols (\<^verbatim>\<open>symbol\<close> is
  the key of the holdings table): a failing symbol has its diagnostic and, as displayed
  price and as-of, those of the row \<^verbatim>\<open>get_cached_price\<close> finds for it, of whatever
  date, or what it had before when there is no row; a symbol that resolves has the
  resolved price and as-of at the end of the run, wherever it stands in the list.
\<close>

theorem update_loop_partial_failure:
  assumes "distinct symbols"
    and "update_loop env force symbols (w, pg) = (w', pg')"
    and "i < length symbols"
  shows "length (resolutions env force symbols (w, pg)) = length symbols
       \<and> errors pg' = errors pg @ failures symbols (resolutions env force symbols (w, pg))
       \<and> fetch_calls w' =
           fetch_calls w
             + length (filter (\<lambda>r. \<not> served_from_cache r) (resolutions env force symbols (w, pg)))
       \<and> (\<forall>e. resolutions env force symbols (w, pg) ! i = Inl e \<longrightarrow>
            (symbols ! i, e) \<in> set (errors pg')
          \<and> map_of (prices pg') (symbols ! i) =
              (case get_cached_price w (symbols ! i) of
                 None \<Rightarrow> map_of (prices pg) (symbols ! i)
               | Some cached \<Rightarrow> Some (row_price cached))
          \<and> map_of (last_asof pg') (symbols ! i) =
              (case get_cached_price w (symbols ! i) of
                 None \<Rightarrow> map_of (last_asof pg) (symbols ! i)
               | Some cached \<Rightarrow> Some (row_asof cached)))
       \<and> (\<forall>p a b. resolutions env force symbols (w, pg) ! i = Inr (p, a, b) \<longrightarrow>
            map_of (prices pg') (symbols ! i) = Some p
          \<and> map_of (last_asof pg') (symbols ! i) = Some a)"
proof -
  let ?res = "resolutions env force symbols (w, pg)"
  have len: "length ?res = length symbols" by (rule length_resolutions)
  have err: "errors pg' = errors pg @ failures symbols ?res"
    using update_loop_errors [of env force symbols "(w, pg)"] assms(2) by simp
  have fc: "fetch_calls w' =
      fetch_calls w + length (filter (\<lambda>r. \<not> served_from_cache r) ?res)"
    using update_loop_fetch_calls [of env force symbols "(w, pg)"] assms(2) by simp
  have diag: "(symbols ! i, e) \<in> set (errors pg')" if "?res ! i = Inl e" for e
    using failures_nth [OF len assms(3) that] by (simp add: err)
  note entry = update_loop_entry [OF assms(1,3), of env force "(w, pg)"]
  have fail: "map_of (prices pg') (symbols ! i) =
              (case get_cached_price w (symbols ! i) of
                 None \<Rightarrow> map_of (prices pg) (symbols ! i)
               | Some cached \<Rightarrow> Some (row_price cached))
          \<and> map_of (last_asof pg') (symbols ! i) =
              (case get_cached_price w (symbols ! i) of
                 None \<Rightarrow> map_of (last_asof pg) (symbols ! i)
               | Some cached \<Rightarrow> Some (row_asof cached))"
    if "?res ! i = Inl e" for e
    using entry [THEN conjunct1, rule_format, OF that] assms(2)
    by (simp cong: option.case_cong)
  have ok: "map_of (prices pg') (symbols ! i) = Some p
          \<and> map_of (last_asof pg') (symbols ! i) = Some a"
    if "?res ! i = Inr (p, a, b)" for p a b
    using entry [THEN conjunct2, rule_format, OF that] assms(2) by simp
  from len err fc diag fail ok show ?thesis by blast
qed


theorem update_loop_partial_failure_witness:
  "distinct [''GGG'', ''DDD'']
   \<and> get_cached_price cached_world ''GGG'' = Some (Row ''GGG'' 3 ''2026-11-03'')
   \<and> resolutions demo_env False [''GGG'', ''DDD''] (cached_world, fresh_page)
       = [Inl (RateLimitHit (JStr ''5 calls per minute'')), Inr (12, ''2026-11-03'', True)]
   \<and> snd (update_loop demo_env False [''GGG'', ''DDD''] (cached_world, fresh_page))
       = \<lparr>prices = [(''GGG'', 3), (''DDD'', 12)],
          last_asof = [(''GGG'', ''2026-11-03''), (''DDD'', ''2026-11-03'')],
          calls_made = 1,
          errors = [(''GGG'', RateLimitHit (JStr ''5 calls per minute''))],
          warnings = []\<rparr>
   \<and> fetch_calls (fst (update_loop demo_env False [''GGG'', ''DDD''] (cached_world, fresh_page))) = 2"
proof -
  let ?rows = "[Row ''AAA'' (7 :: real) ''2026-11-03'', Row ''AAA'' (29 / 4) ''2026-11-04'',
                Row ''GGG'' 3 ''2026-11-03'', Row ''BBB'' 5 ''n/a'']"
  let ?evG = "[HttpGet (Request ''GLOBAL_QUOTE'' ''demo'' ''GGG''),
               HttpGet (Request ''TIME_SERIES_DAILY'' ''demo'' ''GGG''),
               HttpGet (Request ''TIME_SERIES_DAILY_ADJUSTED'' ''demo'' ''GGG'')]"
  let ?evD = "[HttpGet (Request ''GLOBAL_QUOTE'' ''demo'' ''DDD''),
               HttpGet (Request ''TIME_SERIES_DAILY'' ''demo'' ''DDD''),
               HttpGet (Request ''TIME_SERIES_DAILY_ADJUSTED'' ''demo'' ''DDD'')]"
  let ?e = "RateLimitHit (JStr ''5 calls per minute'')"
  let ?w1 = "\<lparr>prices_daily = ?rows, events = ?evG, fetch_calls = Suc 0\<rparr>"
  let ?p1 = "\<lparr>prices = [(''GGG'', 3 :: real)], last_asof = [(''GGG'', ''2026-11-03'')],
              calls_made = 0, errors = [(''GGG'', ?e)], warnings = []\<rparr>"
  let ?w2 = "\<lparr>prices_daily = ?rows @ [Row ''DDD'' 12 ''2026-11-03''], events = ?evG @ ?evD,
              fetch_calls = Suc (Suc 0)\<rparr>"
  let ?W = "\<lparr>prices_daily = ?rows @ [Row ''DDD'' 12 ''2026-11-03''],
             events = ?evG @ ?evD @ [Sleep 12], fetch_calls = Suc (Suc 0)\<rparr>"
  let ?P = "\<lparr>prices = [(''GGG'', 3 :: real), (''DDD'', 12)],
          last_asof = [(''GGG'', ''2026-11-03''), (''DDD'', ''2026-11-03'')],
          calls_made = Suc 0, errors = [(''GGG'', ?e)], warnings = []\<rparr>"
  have d: "distinct [''GGG'', ''DDD'']" by simp
  have cG: "get_cached_price cached_world ''GGG'' = Some (Row ''GGG'' 3 ''2026-11-03'')"
    by (simp add: get_cached_price_def cached_world_def)
  have G: "ensure_price demo_env cached_world ''GGG'' False = (Inl ?e, ?w1)"
    by (simp add: ensure_price_def get_cached_price_def fetch_price_alpha_vantage_def
        tier1_def tier2_def tier3_def call_def demo_defs)
  have sG: "update_step demo_env False ''GGG'' (cached_world, fresh_page) = (?w1, ?p1)"
    by (simp add: update_step_def G get_cached_price_def fresh_page_def)
  have D: "ensure_price demo_env ?w1 ''DDD'' False = (Inr (12, ''2026-11-03'', True), ?w2)"
    by (simp add: ensure_price_def get_cached_price_def cache_price_def
        fetch_price_alpha_vantage_def tier1_def tier2_def tier3_def call_def latest_entry_def
        py_or_def demo_defs)
  have sD: "update_step demo_env False ''DDD'' (?w1, ?p1) = (?W, ?P)"
    by (simp add: update_step_def D)
  have run: "update_loop demo_env False [''GGG'', ''DDD''] (cached_world, fresh_page) = (?W, ?P)"
    by (simp only: update_loop.simps sG sD)
  have res: "resolutions demo_env False [''GGG'', ''DDD''] (cached_world, fresh_page)
       = [Inl ?e, Inr (12, ''2026-11-03'', True)]"
    by (simp only: resolutions.simps fst_conv sG G D)
  have i0: "(0 :: nat) < length [''GGG'', ''DDD'']" and i1: "(1 :: nat) < length [''GGG'', ''DDD'']"
    by simp_all
  have r0: "resolutions demo_env False [''GGG'', ''DDD''] (cached_world, fresh_page) ! 0 = Inl ?e"
    unfolding res by simp
  have r1: "resolutions demo_env False [''GGG'', ''DDD''] (cached_world, fresh_page) ! 1
              = Inr (12, ''2026-11-03'', True)"
    unfolding res by simp
  note t0 = update_loop_partial_failure [OF d run i0]
  note t1 = update_loop_partial_failure [OF d run i1]
  note f0 = t0 [THEN conjunct2, THEN conjunct2, THEN conjunct2, THEN conjunct1, rule_format, OF r0]
  note s1 = t1 [THEN conjunct2, THEN conjunct2, THEN conjunct2, THEN conjunct2, rule_format, OF r1]
  from f0 cG have "(''GGG'', ?e) \<in> set (errors ?P) \<and> map_of (prices ?P) ''GGG'' = Some 3"
    by simp
  moreover from s1 have "map_of (prices ?P) ''DDD'' = Some 12" by simp
  ultimately show ?thesis using d cG res run by simp
qed

text \<open>
  C9, as the claim states it, fails: with no key configured and a row of the day before for
  \<open>GGG\<close>, the run sends no request and resolves no price, yet the stale price of the
  fallback is written to \<^verbatim>\<open>prices\<close>, the test \<^verbatim>\<open>not prices\<close> is false and no
  warning is shown.
\<close>

theorem overview_update_stale_fallback_counterexample:
  "ALPHAVANTAGE_KEY nokey_env = []
   \<and> resolutions nokey_env False [''GGG''] (cached_world, fresh_page) = [Inl KeyMissing]
   \<and> events cached_world = []
   \<and> overview_update nokey_env False True [''GGG''] cached_world
       = (\<lparr>prices_daily = [Row ''AAA'' 7 ''2026-11-03'', Row ''AAA'' (29 / 4) ''2026-11-04'',
                            Row ''GGG'' 3 ''2026-11-03'', Row ''BBB'' 5 ''n/a''],
           events = [], fetch_calls = 1\<rparr>,
          \<lparr>prices = [(''GGG'', 3)], last_asof = [(''GGG'', ''2026-11-03'')], calls_made = 0,
           errors = [(''GGG'', KeyMissing)], warnings = []\<rparr>)"
proof -
  have k: "ALPHAVANTAGE_KEY nokey_env = []" by (simp add: nokey_env_def)
  have d: "dt_parse nokey_env ''2026-11-03'' \<noteq> Some (today nokey_env)"
    by (simp add: nokey_env_def demo_env_def)
  have c: "get_cached_price cached_world ''GGG'' = Some (Row ''GGG'' 3 ''2026-11-03'')"
    by (simp add: get_cached_price_def cached_world_def)
  have G: "ensure_price nokey_env cached_world ''GGG'' False
             = (Inl KeyMissing, cached_world\<lparr>fetch_calls := Suc 0\<rparr>)"
    using d by (simp add: ensure_price_def c fetch_price_alpha_vantage_def k)
      (simp add: cached_world_def)
  have c': "get_cached_price (cached_world\<lparr>fetch_calls := Suc 0\<rparr>) ''GGG''
              = Some (Row ''GGG'' 3 ''2026-11-03'')"
    by (simp add: get_cached_price_def cached_world_def)
  have res: "resolutions nokey_env False [''GGG''] (cached_world, fresh_page) = [Inl KeyMissing]"
    by (simp only: resolutions.simps fst_conv G)
  have run: "overview_update nokey_env False True [''GGG''] cached_world
       = (\<lparr>prices_daily = [Row ''AAA'' 7 ''2026-11-03'', Row ''AAA'' (29 / 4) ''2026-11-04'',
                            Row ''GGG'' 3 ''2026-11-03'', Row ''BBB'' 5 ''n/a''],
           events = [], fetch_calls = 1\<rparr>,
          \<lparr>prices = [(''GGG'', 3)], last_asof = [(''GGG'', ''2026-11-03'')], calls_made = 0,
           errors = [(''GGG'', KeyMissing)], warnings = []\<rparr>)"
    by (simp add: overview_update_def update_step_def G c' fresh_page_def Let_def)
      (simp add: cached_world_def)
  from k res run show ?thesis by (simp add: cached_world_def)
qed

text \<open>
  C9, amended. The test after the loop, \<^verbatim>\<open>calls_made == 0 and not prices\<close>, holds
  exactly when every resolution of the run raised and no symbol of the run has a row in
  the store. In that case the page shows exactly one warning, chosen by cause: the no-key
  message when \<^verbatim>\<open>ALPHAVANTAGE_KEY\<close> is empty, the no-prices-fetched message otherwise.
  In every other run it shows none. \<^verbatim>\<open>calls_made\<close> counts the resolutions that
  fetched, and a run that sent no request has \<^verbatim>\<open>calls_made = 0\<close>.
\<close>

theorem overview_update_warning:
  assumes "overview_update env force True symbols w = (w', pg')"
  shows "((calls_made pg' = 0 \<and> prices pg' = []) \<longleftrightarrow>
            (\<forall>r\<in>set (resolutions env force symbols (w, fresh_page)). \<exists>e. r = Inl e)
            \<and> (\<forall>x\<in>set symbols. \<forall>r\<in>set (prices_daily w). row_symbol r \<noteq> x))
       \<and> ((\<forall>r\<in>set (resolutions env force symbols (w, fresh_page)). \<exists>e. r = Inl e)
            \<and> (\<forall>x\<in>set symbols. \<forall>r\<in>set (prices_daily w). row_symbol r \<noteq> x) \<longrightarrow>
            warnings pg' =
              [if ALPHAVANTAGE_KEY env = []
               then ''No Alpha Vantage key configured; cannot fetch live prices.''
               else ''No prices fetched (possibly rate limit or premium endpoint). Try again in ~60 seconds.''])
       \<and> (\<not> ((\<forall>r\<in>set (resolutions env force symbols (w, fresh_page)). \<exists>e. r = Inl e)
               \<and> (\<forall>x\<in>set symbols. \<forall>r\<in>set (prices_daily w). row_symbol r \<noteq> x)) \<longrightarrow>
            warnings pg' = [])
       \<and> calls_made pg' = length (filter fetched_now (resolutions env force symbols (w, fresh_page)))
       \<and> (filter is_request (events w') = filter is_request (events w) \<longrightarrow> calls_made pg' = 0)"
proof -
  let ?res = "resolutions env force symbols (w, fresh_page)"
  let ?allfail = "\<forall>r\<in>set ?res. \<exists>e. r = Inl e"
  let ?norows = "\<forall>x\<in>set symbols. \<forall>r\<in>set (prices_daily w). row_symbol r \<noteq> x"
  let ?msg = "if ALPHAVANTAGE_KEY env = []
               then ''No Alpha Vantage key configured; cannot fetch live prices.''
               else ''No prices fetched (possibly rate limit or premium endpoint). Try again in ~60 seconds.''"
  obtain w1 pg1 where l: "update_loop env force symbols (w, fresh_page) = (w1, pg1)"
    by (cases "update_loop env force symbols (w, fresh_page)")
  from update_loop_warnings [of env force symbols "(w, fresh_page)"] l
  have wn: "warnings pg1 = []" by (simp add: fresh_page_def)
  from update_loop_calls_made [of env force symbols "(w, fresh_page)"] l
  have cm: "calls_made pg1 = length (filter fetched_now ?res)"
    by (simp add: fresh_page_def)
  from update_loop_requests [of "(w, fresh_page)" env force symbols] l
  have rq: "length (filter is_request (events w)) + length (filter fetched_now ?res)
              \<le> length (filter is_request (events w1))"
    by simp
  from update_loop_prices_empty [of env force symbols "(w, fresh_page)"] l
  have pe: "prices pg1 = [] \<longleftrightarrow> ?allfail \<and> ?norows"
    by (simp add: fresh_page_def get_cached_price_None)
  from assms l have w': "w' = w1"
    and pg': "calls_made pg' = calls_made pg1" "prices pg' = prices pg1"
    by (auto simp: overview_update_def Let_def split: if_splits)
  have cond: "(calls_made pg' = 0 \<and> prices pg' = []) \<longleftrightarrow> ?allfail \<and> ?norows"
  proof
    assume "calls_made pg' = 0 \<and> prices pg' = []"
    with pe pg' show "?allfail \<and> ?norows" by simp
  next
    assume a: "?allfail \<and> ?norows"
    then have "filter fetched_now ?res = []" by (intro all_failed_none_fetched) simp
    with cm a pe pg' show "calls_made pg' = 0 \<and> prices pg' = []" by simp
  qed
  from rq cm w' pg' have zero:
    "filter is_request (events w') = filter is_request (events w) \<longrightarrow> calls_made pg' = 0"
    by auto
  from assms l wn have page:
    "(calls_made pg' = 0 \<and> prices pg' = [] \<longrightarrow> warnings pg' = [?msg])
       \<and> (\<not> (calls_made pg' = 0 \<and> prices pg' = []) \<longrightarrow> warnings pg' = [])"
    by (auto simp: overview_update_def Let_def split: if_splits)
  have yes: "warnings pg' = [?msg]" if "?allfail \<and> ?norows"
    using that cond page by blast
  have no: "warnings pg' = []" if "\<not> (?allfail \<and> ?norows)"
    using that cond page by blast
  from cm pg' have count: "calls_made pg' = length (filter fetched_now ?res)" by simp
  have y: "?allfail \<and> ?norows \<longrightarrow> warnings pg' = [?msg]" using yes by (rule impI)
  have n: "\<not> (?allfail \<and> ?norows) \<longrightarrow> warnings pg' = []" using no by (rule impI)
  show ?thesis
    by (intro conjI) (fact cond, fact y, fact n, fact count, fact zero)
qed


theorem overview_update_warning_witness:
  "resolutions nokey_env False [''GGG'', ''XXX''] (empty_world, fresh_page)
     = [Inl KeyMissing, Inl KeyMissing]
   \<and> prices_daily empty_world = []
   \<and> warnings (snd (overview_update nokey_env False True [''GGG'', ''XXX''] empty_world))
       = [''No Alpha Vantage key configured; cannot fetch live prices.'']
   \<and> resolutions demo_env False [''GGG''] (empty_world, fresh_page)
       = [Inl (RateLimitHit (JStr ''5 calls per minute''))]
   \<and> warnings (snd (overview_update demo_env False True [''GGG''] empty_world))
       = [''No prices fetched (possibly rate limit or premium endpoint). Try again in ~60 seconds.'']"
proof -
  have k: "ALPHAVANTAGE_KEY nokey_env = []" by (simp add: nokey_env_def)
  have kd: "ALPHAVANTAGE_KEY demo_env \<noteq> []" by (simp add: demo_env_def)
  have rows: "prices_daily empty_world = []" by (simp add: empty_world_def)
  have N: "ensure_price nokey_env w s False = (Inl KeyMissing, w\<lparr>fetch_calls := Suc (fetch_calls w)\<rparr>)"
    if "prices_daily w = []" for w :: "real world" and s
    using that by (simp add: ensure_price_def get_cached_price_def fetch_price_alpha_vantage_def k)
  have N1: "ensure_price nokey_env empty_world ''GGG'' False
      = (Inl KeyMissing, empty_world\<lparr>fetch_calls := Suc (fetch_calls empty_world)\<rparr>)"
    by (rule N [OF rows])
  have s1: "fst (update_step nokey_env False ''GGG'' (empty_world, fresh_page))
      = empty_world\<lparr>fetch_calls := Suc (fetch_calls empty_world)\<rparr>"
    using update_step_world [OF N1, of fresh_page] by (simp add: fetched_now_def)
  have N2: "fst (ensure_price nokey_env
        (fst (update_step nokey_env False ''GGG'' (empty_world, fresh_page))) ''XXX'' False)
      = Inl KeyMissing"
    unfolding s1 by (subst N) (simp_all add: rows)
  have resN: "resolutions nokey_env False [''GGG'', ''XXX''] (empty_world, fresh_page)
     = [Inl KeyMissing, Inl KeyMissing]"
    by (simp add: N1 N2)
  have failN: "(\<forall>r\<in>set (resolutions nokey_env False [''GGG'', ''XXX''] (empty_world, fresh_page)).
                  \<exists>e. r = Inl e)
             \<and> (\<forall>x\<in>set [''GGG'', ''XXX'']. \<forall>r\<in>set (prices_daily empty_world). row_symbol r \<noteq> x)"
    unfolding resN rows by simp
  obtain wN pN where runN:
    "overview_update nokey_env False True [''GGG'', ''XXX''] empty_world = (wN, pN)"
    by (cases "overview_update nokey_env False True [''GGG'', ''XXX''] empty_world")
  from overview_update_warning [OF runN, THEN conjunct2, THEN conjunct1, THEN mp, OF failN] k
  have wN: "warnings pN = [''No Alpha Vantage key configured; cannot fetch live prices.'']"
    by simp
  have G: "fst (ensure_price demo_env empty_world ''GGG'' False)
             = Inl (RateLimitHit (JStr ''5 calls per minute''))"
    by (simp add: ensure_price_def get_cached_price_def fetch_price_alpha_vantage_def
        tier1_def tier2_def tier3_def call_def demo_defs)
  have resD: "resolutions demo_env False [''GGG''] (empty_world, fresh_page)
       = [Inl (RateLimitHit (JStr ''5 calls per minute''))]"
    by (simp only: resolutions.simps fst_conv G)
  have failD: "(\<forall>r\<in>set (resolutions demo_env False [''GGG''] (empty_world, fresh_page)).
                  \<exists>e. r = Inl e)
             \<and> (\<forall>x\<in>set [''GGG'']. \<forall>r\<in>set (prices_daily empty_world). row_symbol r \<noteq> x)"
    unfolding resD rows by simp
  obtain wD pD where runD: "overview_update demo_env False True [''GGG''] empty_world = (wD, pD)"
    by (cases "overview_update demo_env False True [''GGG''] empty_world")
  from overview_update_warning [OF runD, THEN conjunct2, THEN conjunct1, THEN mp, OF failD] kd
  have wD: "warnings pD =
      [''No prices fetched (possibly rate limit or premium endpoint). Try again in ~60 seconds.'']"
    by simp
  from resN rows wN runN resD wD runD show ?thesis by simp
qed

end
